theory Spec2Isabelle
  imports Main "HOL-Library.AList" "HOL-Library.Sublist"
begin

text \<open>
  A shallow embedding of \<open>src/index.js\<close>: the provider handle \<open>MCPClient\<close>, the agent
  \<open>MCPAgent\<close> with its tool registry and its turn loop, and \<open>getMCPClients\<close>. The
  methods are state-passing functions: each takes the object it works on and the trace
  of effects so far, and returns its result (\<open>Inl\<close> for a raised error), the object as
  it has left it, and the extended trace. The provider SDK, the LLM SDK and the console
  are parameters.
\<close>

section \<open>JavaScript values and plain objects\<close>

text \<open>
  The values that cross the program's boundaries are JSON-compatible (tool schemas, tool
  arguments, tool responses, configuration descriptors), plus \<open>undefined\<close> for a
  property that is read but not there. Numbers are only passed along, never computed
  with, so integers stand for them.
\<close>

datatype js_value =
    JUndefined
  | JNull
  | JBool bool
  | JNum int
  | JStr string
  | JArr "js_value list"
  | JObj "(string \<times> js_value) list"

text \<open>
  A plain object is the list of its own enumerable string-keyed properties in the order
  \<open>Object.keys\<close> reports them: array-index keys (canonical decimal numerals below
  \<open>2^32 - 1\<close>) ascending, then all other keys in creation order.
\<close>

type_synonym 'v js_object = "(string \<times> 'v) list"

definition is_digit :: "char \<Rightarrow> bool" where
  "is_digit c \<longleftrightarrow> c \<in> set ''0123456789''"

definition digit_value :: "char \<Rightarrow> nat" where
  "digit_value c = of_char c - 48"

definition array_index :: "string \<Rightarrow> nat option" where
  "array_index s =
     (if s = [] \<or> \<not> list_all is_digit s \<or> (hd s = CHR ''0'' \<and> s \<noteq> ''0'') then None
      else let n = foldl (\<lambda>a c. 10 * a + digit_value c) 0 s
           in if n < 2 ^ 32 - 1 then Some n else None)"

definition key_before :: "string \<Rightarrow> string \<Rightarrow> bool" where
  "key_before k k' =
     (case array_index k of
        None \<Rightarrow> False
      | Some n \<Rightarrow> (case array_index k' of None \<Rightarrow> True | Some n' \<Rightarrow> n < n'))"

fun obj_insert :: "'v js_object \<Rightarrow> string \<Rightarrow> 'v \<Rightarrow> 'v js_object" where
  "obj_insert [] k v = [(k, v)]"
| "obj_insert ((k', v') # ps) k v =
     (if key_before k k' then (k, v) # (k', v') # ps else (k', v') # obj_insert ps k v)"

text \<open>Defining or overwriting an own data property: an existing key keeps its place.\<close>

definition obj_set :: "'v js_object \<Rightarrow> string \<Rightarrow> 'v \<Rightarrow> 'v js_object" where
  "obj_set ps k v =
     (if map_of ps k \<noteq> None then AList.update k v ps else obj_insert ps k v)"

definition obj_has :: "'v js_object \<Rightarrow> string \<Rightarrow> bool" where
  "obj_has ps k \<longleftrightarrow> map_of ps k \<noteq> None"

text \<open>
  \<open>o[k]\<close> for the keys this program reads (\<open>type\<close>, \<open>command\<close>, \<open>args\<close>, and the own
  keys of a schema): an absent key reads as \<open>undefined\<close>.
\<close>

definition obj_get :: "js_value js_object \<Rightarrow> string \<Rightarrow> js_value" where
  "obj_get ps k = (case map_of ps k of None \<Rightarrow> JUndefined | Some v \<Rightarrow> v)"

text \<open>
  The assignment \<open>o[k] = v\<close> on an object made by the literal \<open>{}\<close>. For every key but
  one it defines or overwrites an own property. The key \<open>__proto__\<close> is the exception:
  it reaches the accessor inherited from \<open>Object.prototype\<close>, whose setter replaces the
  prototype (when \<open>v\<close> is an object or \<open>null\<close>) or does nothing (otherwise); in neither
  case does \<open>o\<close> get an own property.
\<close>

definition js_assign :: "js_value js_object \<Rightarrow> string \<Rightarrow> js_value \<Rightarrow> js_value js_object" where
  "js_assign ps k v = (if k = ''__proto__'' then ps else obj_set ps k v)"


section \<open>Errors, transports and the outside world\<close>

text \<open>
  The three transports of the provider SDK. Their constructors only record their
  arguments: the command and arguments of the local process, or the URL.
\<close>

datatype transport =
    StdioClientTransport js_value js_value
  | StreamableHTTPClientTransport js_value
  | SSEClientTransport js_value

text \<open>
  \<open>TypeError\<close> is what the engine raises on a property read from \<open>undefined\<close> or
  \<open>null\<close>; \<open>UnknownTransportType t\<close> is the source's
  \<open>new Error(`Unknown transport type: ${config.type}`)\<close> with \<open>t\<close> the value of
  \<open>config.type\<close>; \<open>Rejected m\<close> is a failure raised by an external collaborator (the
  provider SDK, the LLM SDK, the console).
\<close>

datatype error =
    TypeError
  | UnknownTransportType js_value
  | Rejected string

record tool =
  tool_name :: string
  tool_description :: js_value
  tool_inputSchema :: "js_value js_object"

record tool_definition =
  def_name :: string
  def_description :: js_value
  def_parameters :: "js_value js_object"

record tool_group =
  functionDeclarations :: "tool_definition list"

datatype 'a field = Absent | Nullish | Value 'a

record function_call =
  fc_name :: string
  fc_args :: js_value

record function_response =
  fr_name :: string
  fr_response :: js_value

text \<open>
  A part is an object with optional fields. For \<open>functionCall\<close> the source tests both
  the presence of the key (\<open>'functionCall' in part\<close>) and the truthiness of its value
  (\<open>!part.functionCall\<close>), so a key that is present with a \<open>null\<close> value is kept apart
  from an absent key.
\<close>

record part =
  p_text :: "string option"
  p_functionCall :: "function_call field"
  p_functionResponse :: "function_response option"

record turn =
  parts :: "part list"
  role :: string

record candidate =
  content :: turn

record response =
  candidates :: "candidate list"

record request =
  model :: string
  contents :: "turn list"
  config_tools :: "tool_group list"

text \<open>
  Every effect is an event appended to a trace; handles are named by their position in
  the agent's \<open>mcpClients\<close> array.
\<close>

datatype event =
    Connect nat transport
  | ListTools nat
  | CallTool nat string js_value
  | Question string
  | ConsoleLog string
  | GenerateContent request

type_synonym world = "event list"

text \<open>
  The collaborators are deterministic oracles: what each returns may depend on its
  arguments and on everything that has happened so far.
\<close>

record env =
  mcp_connect :: "nat \<Rightarrow> transport \<Rightarrow> world \<Rightarrow> error option"
  mcp_listTools :: "nat \<Rightarrow> world \<Rightarrow> error + tool list"
  mcp_callTool :: "nat \<Rightarrow> string \<Rightarrow> js_value \<Rightarrow> world \<Rightarrow> error + js_value"
  rl_question :: "string \<Rightarrow> world \<Rightarrow> error + string"
  generateContent :: "request \<Rightarrow> world \<Rightarrow> error + response"
  JSON_stringify :: "js_value \<Rightarrow> string"


section \<open>MCPClient\<close>

record mcp_client =
  mcp_name :: string
  tools :: "tool list option"
  initialised :: bool
  transport :: transport

text \<open>
  The constructor; \<open>rnd\<close> is the suffix \<open>Math.random().toString(36).substring(2, 7)\<close>,
  used only when the name is empty.
\<close>

definition MCPClient :: "string \<Rightarrow> string \<Rightarrow> transport \<Rightarrow> mcp_client" where
  "MCPClient rnd name tr =
     \<lparr>mcp_name = (if name = [] then ''Client-'' @ rnd else name),
      tools = None, initialised = False, transport = tr\<rparr>"

definition initiate :: "env \<Rightarrow> nat \<Rightarrow> mcp_client \<Rightarrow> world \<Rightarrow> (error + unit) \<times> mcp_client \<times> world" where
  "initiate E i c w =
     (if initialised c then (Inr (), c, w)
      else (case mcp_connect E i (transport c) w of
              Some e \<Rightarrow> (Inl e, c, w @ [Connect i (transport c)])
            | None \<Rightarrow> (Inr (), c\<lparr>initialised := True\<rparr>, w @ [Connect i (transport c)])))"

text \<open>\<open>!this.tools\<close> holds for \<open>null\<close> only: an empty array is truthy and stays cached.\<close>

definition getTool :: "env \<Rightarrow> nat \<Rightarrow> mcp_client \<Rightarrow> world \<Rightarrow> (error + tool list) \<times> mcp_client \<times> world" where
  "getTool E i c w =
     (case (if \<not> initialised c then initiate E i c w else (Inr (), c, w)) of
        (Inl e, c1, w1) \<Rightarrow> (Inl e, c1, w1)
      | (Inr _, c1, w1) \<Rightarrow>
          (case tools c1 of
             Some ts \<Rightarrow> (Inr ts, c1, w1)
           | None \<Rightarrow>
               (case mcp_listTools E i w1 of
                  Inl e \<Rightarrow> (Inl e, c1, w1 @ [ListTools i])
                | Inr ts \<Rightarrow> (Inr ts, c1\<lparr>tools := Some ts\<rparr>, w1 @ [ListTools i]))))"

record outcome =
  success :: bool
  response :: js_value

definition confirm_prompt :: "env \<Rightarrow> string \<Rightarrow> js_value \<Rightarrow> string" where
  "confirm_prompt E toolName args =
     [CHR 0x0A] @ ''Type yes to confirm calling tool '' @ toolName @ '' with args ''
       @ JSON_stringify E args @ '' or anything else to cancel: ''"

definition callTool :: "env \<Rightarrow> nat \<Rightarrow> string \<Rightarrow> js_value \<Rightarrow> world \<Rightarrow> (error + outcome) \<times> world" where
  "callTool E i toolName args w =
     (let w1 = w @ [Question (confirm_prompt E toolName args)] in
      case rl_question E (confirm_prompt E toolName args) w of
        Inl e \<Rightarrow> (Inl e, w1)
      | Inr line \<Rightarrow>
          if line \<noteq> ''yes''
          then (Inr \<lparr>success = False, response = JNull\<rparr>, w1 @ [ConsoleLog ''Tool call cancelled.''])
          else (case mcp_callTool E i toolName args w1 of
                  Inl e \<Rightarrow> (Inl e, w1 @ [CallTool i toolName args])
                | Inr r \<Rightarrow> (Inr \<lparr>success = True, response = r\<rparr>, w1 @ [CallTool i toolName args])))"


section \<open>MCPAgent: the tool registry\<close>

record registry_entry =
  e_definition :: tool_definition
  e_client :: nat

text \<open>
  \<open>_cachedTools\<close> starts as the literal \<open>{}\<close> and is only ever written by
  \<open>this._cachedTools[tool.name] = {definition, client}\<close>. Its own properties are the
  registered entries. Because the assigned value is an object, a tool named
  \<open>__proto__\<close> does not become an own property: the inherited setter makes the entry
  the prototype of \<open>_cachedTools\<close>, which \<open>reg_proto\<close> records.
\<close>

record registry =
  reg_own :: "registry_entry js_object"
  reg_proto :: "registry_entry option"

definition registry_empty :: registry where
  "registry_empty = \<lparr>reg_own = [], reg_proto = None\<rparr>"

definition registry_assign :: "registry \<Rightarrow> string \<Rightarrow> registry_entry \<Rightarrow> registry" where
  "registry_assign r k e =
     (if k = ''__proto__'' then r\<lparr>reg_proto := Some e\<rparr>
      else r\<lparr>reg_own := obj_set (reg_own r) k e\<rparr>)"

text \<open>
  The entry that \<open>this._cachedTools[k]\<close> evaluates to, when it evaluates to one: an own
  property, or for \<open>k = __proto__\<close> the prototype installed by a registration. Every
  other outcome of the read is \<open>undefined\<close> or an inherited value that is not an entry
  (the \<open>definition\<close> and \<open>client\<close> of a prototype entry, the members of
  \<open>Object.prototype\<close>); none of those has a \<open>client\<close> property.
\<close>

definition registry_lookup :: "registry \<Rightarrow> string \<Rightarrow> registry_entry option" where
  "registry_lookup r k =
     (case map_of (reg_own r) k of
        Some e \<Rightarrow> Some e
      | None \<Rightarrow> (if k = ''__proto__'' then reg_proto r else None))"

text \<open>
  \<open>Object.keys(tool.inputSchema).filter(key => !['additionalProperties',
  '$schema'].includes(key)).forEach(key => { parameters[key] = tool.inputSchema[key]; })\<close>
  starting from \<open>parameters = {}\<close>.
\<close>

definition build_parameters :: "js_value js_object \<Rightarrow> js_value js_object" where
  "build_parameters inputSchema =
     foldl (\<lambda>parameters key. js_assign parameters key (obj_get inputSchema key)) []
       (filter (\<lambda>key. key \<notin> set [''additionalProperties'', ''$schema'']) (map fst inputSchema))"

text \<open>
  The callback of \<open>tools.map\<close> in \<open>loadTools\<close>, for the handle at position \<open>i\<close>:
  the object literal \<open>{definition: {name, description, parameters}, client}\<close> and its
  assignment to \<open>this._cachedTools[tool.name]\<close>.
\<close>

definition tool_entry :: "nat \<Rightarrow> tool \<Rightarrow> registry_entry" where
  "tool_entry i t =
     \<lparr>e_definition =
        \<lparr>def_name = tool_name t, def_description = tool_description t,
         def_parameters = build_parameters (tool_inputSchema t)\<rparr>,
      e_client = i\<rparr>"

definition register_tool :: "nat \<Rightarrow> registry \<Rightarrow> tool \<Rightarrow> registry" where
  "register_tool i r t = registry_assign r (tool_name t) (tool_entry i t)"

record mcp_agent =
  mcpClients :: "mcp_client list"
  cachedTools :: "registry option"

definition MCPAgent :: "mcp_client list \<Rightarrow> mcp_agent" where
  "MCPAgent clients = \<lparr>mcpClients = clients, cachedTools = None\<rparr>"

text \<open>
  The \<open>for (let mcpClient of this.mcpClients)\<close> loop: \<open>i\<close> is the position of the head
  of the remaining handles. A failing \<open>getTool\<close> leaves the loop with the registry
  built so far.
\<close>

fun loadTools_for ::
  "env \<Rightarrow> nat \<Rightarrow> mcp_client list \<Rightarrow> registry \<Rightarrow> world
     \<Rightarrow> error option \<times> mcp_client list \<times> registry \<times> world" where
  "loadTools_for E i [] r w = (None, [], r, w)"
| "loadTools_for E i (c # cs) r w =
     (case getTool E i c w of
        (Inl e, c', w') \<Rightarrow> (Some e, c' # cs, r, w')
      | (Inr ts, c', w') \<Rightarrow>
          (case loadTools_for E (Suc i) cs (foldl (register_tool i) r ts) w' of
             (res, cs', r', w'') \<Rightarrow> (res, c' # cs', r', w'')))"

text \<open>\<open>Object.values(this._cachedTools).map(tool => ({functionDeclarations: [tool.definition]}))\<close>\<close>

definition declarations :: "registry \<Rightarrow> tool_group list" where
  "declarations r = map (\<lambda>entry. \<lparr>functionDeclarations = [e_definition entry]\<rparr>) (map snd (reg_own r))"

definition loadTools :: "env \<Rightarrow> mcp_agent \<Rightarrow> world \<Rightarrow> (error + tool_group list) \<times> mcp_agent \<times> world" where
  "loadTools E a w =
     (case cachedTools a of
        Some r \<Rightarrow> (Inr (declarations r), a, w)
      | None \<Rightarrow>
          (case loadTools_for E 0 (mcpClients a) registry_empty w of
             (None, cs, r, w') \<Rightarrow> (Inr (declarations r), a\<lparr>mcpClients := cs, cachedTools := Some r\<rparr>, w')
           | (Some e, cs, r, w') \<Rightarrow> (Inl e, a\<lparr>mcpClients := cs, cachedTools := Some r\<rparr>, w')))"


section \<open>MCPAgent: the turn loop\<close>

text \<open>\<open>this._cachedTools[part.functionCall.name].client\<close>, followed by the read of its \<open>callTool\<close>.\<close>

definition functionClient :: "registry option \<Rightarrow> string \<Rightarrow> error + nat" where
  "functionClient cached name =
     (case cached of
        None \<Rightarrow> Inl TypeError
      | Some r \<Rightarrow> (case registry_lookup r name of None \<Rightarrow> Inl TypeError | Some e \<Rightarrow> Inr (e_client e)))"

definition failed_payload :: js_value where
  "failed_payload =
     JObj [(''content'',
            JObj [(''type'', JStr ''text''),
                  (''text'', JStr ''Tool/Function call failed or was cancelled.'')])]"

definition response_part :: "string \<Rightarrow> js_value \<Rightarrow> part" where
  "response_part name v =
     \<lparr>p_text = None, p_functionCall = Absent,
      p_functionResponse = Some \<lparr>fr_name = name, fr_response = v\<rparr>\<rparr>"

text \<open>The part pushed for one call: the two branches of \<open>if (success)\<close>.\<close>

definition result_part :: "function_call \<Rightarrow> outcome \<Rightarrow> part" where
  "result_part fc out =
     (if success out then response_part (fc_name fc) (response out)
      else response_part (fc_name fc) failed_payload)"

text \<open>
  The \<open>for (let part of response.candidates[0].content.parts)\<close> loop, with
  \<open>functionResponseParts\<close> as accumulator.
\<close>

fun dispatch_parts ::
  "env \<Rightarrow> registry option \<Rightarrow> part list \<Rightarrow> part list \<Rightarrow> world \<Rightarrow> (error + part list) \<times> world" where
  "dispatch_parts E cached [] functionResponseParts w = (Inr functionResponseParts, w)"
| "dispatch_parts E cached (p # ps) functionResponseParts w =
     (case p_functionCall p of
        Value fc \<Rightarrow>
          (case functionClient cached (fc_name fc) of
             Inl e \<Rightarrow> (Inl e, w)
           | Inr i \<Rightarrow>
               (case callTool E i (fc_name fc) (fc_args fc) w of
                  (Inl e, w') \<Rightarrow> (Inl e, w')
                | (Inr out, w') \<Rightarrow>
                    dispatch_parts E cached ps (functionResponseParts @ [result_part fc out]) w'))
      | _ \<Rightarrow> dispatch_parts E cached ps functionResponseParts w)"

definition no_functionCall :: "part \<Rightarrow> bool" where
  "no_functionCall p \<longleftrightarrow> p_functionCall p = Absent"

text \<open>The argument of \<open>generateContent\<close>, and the turn that reports the tool results.\<close>

definition llm_request :: "turn list \<Rightarrow> tool_group list \<Rightarrow> request" where
  "llm_request currentContents ts =
     \<lparr>model = ''gemini-2.0-flash'', contents = currentContents, config_tools = ts\<rparr>"

definition results_turn :: "part list \<Rightarrow> turn" where
  "results_turn functionResponseParts = \<lparr>parts = functionResponseParts, role = ''user''\<rparr>"

text \<open>
  The \<open>while (true)\<close> loop of \<open>processQuery\<close>. It has no bound, so the model is a
  partial function: \<open>None\<close> stands for a loop that never ends.
\<close>

partial_function (option) processQuery_loop ::
  "env \<Rightarrow> mcp_agent \<Rightarrow> turn list \<Rightarrow> world
     \<Rightarrow> ((error + response \<times> turn list) \<times> mcp_agent \<times> world) option" where
  "processQuery_loop E a currentContents w =
     (case loadTools E a w of
        (Inl e, a1, w1) \<Rightarrow> Some (Inl e, a1, w1)
      | (Inr ts, a1, w1) \<Rightarrow>
          (let w2 = w1 @ [GenerateContent (llm_request currentContents ts)]
           in case generateContent E (llm_request currentContents ts) w1 of
                Inl e \<Rightarrow> Some (Inl e, a1, w2)
              | Inr resp \<Rightarrow>
                  (case candidates resp of
                     [] \<Rightarrow> Some (Inl TypeError, a1, w2)
                   | cand # _ \<Rightarrow>
                       if list_all no_functionCall (parts (content cand))
                       then Some (Inr (resp, currentContents @ [content cand]), a1, w2)
                       else (case dispatch_parts E (cachedTools a1) (parts (content cand)) [] w2 of
                               (Inl e, w3) \<Rightarrow> Some (Inl e, a1, w3)
                             | (Inr functionResponseParts, w3) \<Rightarrow>
                                 processQuery_loop E a1
                                   (currentContents @ [content cand, results_turn functionResponseParts])
                                   w3))))"

declare processQuery_loop.simps [code]

definition text_part :: "string \<Rightarrow> part" where
  "text_part s = \<lparr>p_text = Some s, p_functionCall = Absent, p_functionResponse = None\<rparr>"

definition user_turn :: "string \<Rightarrow> string \<Rightarrow> turn" where
  "user_turn query r = \<lparr>parts = [text_part query], role = r\<rparr>"

text \<open>\<open>processQuery(query, role = "user", savedContent = [])\<close>, the defaults written out by the caller.\<close>

definition processQuery ::
  "env \<Rightarrow> mcp_agent \<Rightarrow> string \<Rightarrow> string \<Rightarrow> turn list \<Rightarrow> world
     \<Rightarrow> ((error + response \<times> turn list) \<times> mcp_agent \<times> world) option" where
  "processQuery E a query r savedContent w =
     processQuery_loop E a (savedContent @ [user_turn query r]) w"


section \<open>Configuration\<close>

text \<open>The callback of \<open>Object.entries(mcpConfig).map\<close> in \<open>getMCPClients\<close>.\<close>

definition client_of_entry :: "string \<Rightarrow> string \<times> js_value js_object \<Rightarrow> error + mcp_client" where
  "client_of_entry rnd entry =
     (case entry of (name, config) \<Rightarrow>
        if \<not> obj_has config ''url''
        then Inr (MCPClient rnd name
                    (StdioClientTransport (obj_get config ''command'') (obj_get config ''args'')))
        else if obj_get config ''type'' = JStr ''http''
        then Inr (MCPClient rnd name (StreamableHTTPClientTransport (obj_get config ''url'')))
        else if obj_get config ''type'' = JStr ''sse''
        then Inr (MCPClient rnd name (SSEClientTransport (obj_get config ''url'')))
        else Inl (UnknownTransportType (obj_get config ''type'')))"

text \<open>
  \<open>mcpConfig\<close> is the list \<open>Object.entries\<close> gives; \<open>rnd i\<close> is the random suffix drawn
  for the entry at position \<open>i\<close>. A throwing callback ends the \<open>map\<close>.
\<close>

fun getMCPClients_from ::
  "(nat \<Rightarrow> string) \<Rightarrow> nat \<Rightarrow> (string \<times> js_value js_object) list \<Rightarrow> error + mcp_client list" where
  "getMCPClients_from rnd i [] = Inr []"
| "getMCPClients_from rnd i (entry # entries) =
     (case client_of_entry (rnd i) entry of
        Inl e \<Rightarrow> Inl e
      | Inr c \<Rightarrow>
          (case getMCPClients_from rnd (Suc i) entries of
             Inl e \<Rightarrow> Inl e
           | Inr cs \<Rightarrow> Inr (c # cs)))"

definition getMCPClients :: "(nat \<Rightarrow> string) \<Rightarrow> (string \<times> js_value js_object) list \<Rightarrow> error + mcp_client list" where
  "getMCPClients rnd mcpConfig = getMCPClients_from rnd 0 mcpConfig"


section \<open>Reading a trace\<close>

text \<open>What a trace shows of each collaborator, oldest first.\<close>

definition provider_calls :: "world \<Rightarrow> (nat \<times> string \<times> js_value) list" where
  "provider_calls w = concat (map (\<lambda>ev. case ev of CallTool i n a \<Rightarrow> [(i, n, a)] | _ \<Rightarrow> []) w)"

definition listTools_queries :: "world \<Rightarrow> nat list" where
  "listTools_queries w = concat (map (\<lambda>ev. case ev of ListTools i \<Rightarrow> [i] | _ \<Rightarrow> []) w)"

definition questions :: "world \<Rightarrow> string list" where
  "questions w = concat (map (\<lambda>ev. case ev of Question q \<Rightarrow> [q] | _ \<Rightarrow> []) w)"

definition llm_requests :: "world \<Rightarrow> request list" where
  "llm_requests w = concat (map (\<lambda>ev. case ev of GenerateContent r \<Rightarrow> [r] | _ \<Rightarrow> []) w)"


text \<open>A trace segment without tool invocations, console prompts or LLM round-trips.\<close>

definition quiet :: "event list \<Rightarrow> bool" where
  "quiet evs \<longleftrightarrow> provider_calls evs = [] \<and> questions evs = [] \<and> llm_requests evs = []"


section \<open>Reading a registry and a reply\<close>

text \<open>
  What a registry binds: its own properties, and \<open>__proto__\<close> to the prototype entry when
  a registration installed one.
\<close>

definition registry_bindings :: "registry \<Rightarrow> (string \<times> registry_entry) set" where
  "registry_bindings r =
     set (reg_own r) \<union> (case reg_proto r of None \<Rightarrow> {} | Some e \<Rightarrow> {(''__proto__'', e)})"

text \<open>
  The registry that results from registering, handle by handle from position \<open>i\<close> on,
  the catalogue each handle has cached.
\<close>

fun registered :: "nat \<Rightarrow> mcp_client list \<Rightarrow> registry \<Rightarrow> registry" where
  "registered i [] r = r"
| "registered i (c # cs) r =
     registered (Suc i) cs (foldl (register_tool i) r (case tools c of None \<Rightarrow> [] | Some ts \<Rightarrow> ts))"

text \<open>The function calls of a reply, in the order of its parts.\<close>

definition function_calls :: "part list \<Rightarrow> function_call list" where
  "function_calls ps = concat (map (\<lambda>p. case p_functionCall p of Value fc \<Rightarrow> [fc] | _ \<Rightarrow> []) ps)"


section \<open>Concrete sessions\<close>

text \<open>
  One local provider exposing \<open>add(a, b)\<close>; the model first asks for \<open>add\<close> with
  \<open>{a: 2, b: 2}\<close>, the provider answers \<open>4\<close>, and the model then replies with the text
  \<open>4\<close>. The operator's answer to the confirmation prompt is a parameter.
\<close>

definition add_tool :: tool where
  "add_tool =
     \<lparr>tool_name = ''add'', tool_description = JStr ''Add two numbers'',
      tool_inputSchema =
        [(''type'', JStr ''object''),
         (''properties'', JObj [(''a'', JObj [(''type'', JStr ''number'')]),
                                (''b'', JObj [(''type'', JStr ''number'')])]),
         (''required'', JArr [JStr ''a'', JStr ''b'']),
         (''additionalProperties'', JBool False),
         (''$schema'', JStr ''http://json-schema.org/draft-07/schema#'')]\<rparr>"

definition add_args :: js_value where
  "add_args = JObj [(''a'', JNum 2), (''b'', JNum 2)]"

definition call_part :: "string \<Rightarrow> js_value \<Rightarrow> part" where
  "call_part name args =
     \<lparr>p_text = None, p_functionCall = Value \<lparr>fc_name = name, fc_args = args\<rparr>,
      p_functionResponse = None\<rparr>"

definition model_turn :: "part list \<Rightarrow> turn" where
  "model_turn ps = \<lparr>parts = ps, role = ''model''\<rparr>"

definition model_reply :: "part list \<Rightarrow> response" where
  "model_reply ps = \<lparr>candidates = [\<lparr>content = model_turn ps\<rparr>]\<rparr>"

definition demo_env :: "string \<Rightarrow> string \<Rightarrow> env" where
  "demo_env requested answer =
     \<lparr>mcp_connect = (\<lambda>i t w. None),
      mcp_listTools = (\<lambda>i w. Inr [add_tool]),
      mcp_callTool = (\<lambda>i n a w. Inr (JNum 4)),
      rl_question = (\<lambda>q w. Inr answer),
      generateContent =
        (\<lambda>req w. if llm_requests w = [] then Inr (model_reply [call_part requested add_args])
                  else Inr (model_reply [text_part ''4''])),
      JSON_stringify = (\<lambda>v. ''{}'')\<rparr>"

definition demo_client :: mcp_client where
  "demo_client = MCPClient ''abcde'' ''calc'' (StdioClientTransport (JStr ''node'') (JArr [JStr ''calc.js'']))"

definition demo_agent :: mcp_agent where
  "demo_agent = MCPAgent [demo_client]"

definition add_definition :: tool_definition where
  "add_definition =
     \<lparr>def_name = ''add'', def_description = JStr ''Add two numbers'',
      def_parameters =
        [(''type'', JStr ''object''),
         (''properties'', JObj [(''a'', JObj [(''type'', JStr ''number'')]),
                                (''b'', JObj [(''type'', JStr ''number'')])]),
         (''required'', JArr [JStr ''a'', JStr ''b''])]\<rparr>"

definition demo_registry :: registry where
  "demo_registry =
     \<lparr>reg_own = [(''add'', \<lparr>e_definition = add_definition, e_client = 0\<rparr>)], reg_proto = None\<rparr>"

definition demo_loaded :: mcp_agent where
  "demo_loaded =
     \<lparr>mcpClients = [demo_client\<lparr>tools := Some [add_tool], initialised := True\<rparr>],
      cachedTools = Some demo_registry\<rparr>"

definition demo_loading :: world where
  "demo_loading = [Connect 0 (transport demo_client), ListTools 0]"

text \<open>Providers that never fail, with fixed catalogues; the model only ever answers in text.\<close>

definition catalogue_env :: "(nat \<Rightarrow> tool list) \<Rightarrow> env" where
  "catalogue_env catalogue =
     \<lparr>mcp_connect = (\<lambda>i t w. None),
      mcp_listTools = (\<lambda>i w. Inr (catalogue i)),
      mcp_callTool = (\<lambda>i n a w. Inr JNull),
      rl_question = (\<lambda>q w. Inr ''yes''),
      generateContent = (\<lambda>req w. Inr (model_reply [text_part ''ok''])),
      JSON_stringify = (\<lambda>v. ''{}'')\<rparr>"



text \<open>Two providers that both expose a tool named \<open>add\<close>.\<close>

definition vector_add_tool :: tool where
  "vector_add_tool =
     \<lparr>tool_name = ''add'', tool_description = JStr ''Add two vectors'',
      tool_inputSchema = [(''type'', JStr ''object'')]\<rparr>"

definition add_catalogues :: "nat \<Rightarrow> tool list" where
  "add_catalogues i = (if i = 0 then [add_tool] else [vector_add_tool])"

definition vector_client :: mcp_client where
  "vector_client = MCPClient ''fghij'' ''vec'' (SSEClientTransport (JStr ''http://localhost:3001/sse''))"

definition two_agent :: mcp_agent where
  "two_agent = MCPAgent [demo_client, vector_client]"

text \<open>A descriptor with an unknown transport type and no \<open>url\<close>, \<open>command\<close> or \<open>args\<close>.\<close>

definition websocket_descriptor :: "js_value js_object" where
  "websocket_descriptor = [(''type'', JStr ''websocket''), (''endpoint'', JStr ''ws://localhost:9000'')]"

text \<open>A local provider followed by a remote one with an unknown transport type.\<close>

definition mixed_config :: "(string \<times> js_value js_object) list" where
  "mixed_config =
     [(''calc'', [(''command'', JStr ''node''), (''args'', JArr [JStr ''calc.js''])]),
      (''events'', [(''type'', JStr ''websocket''), (''url'', JStr ''ws://localhost:9000'')])]"

definition demo_rnd :: "nat \<Rightarrow> string" where
  "demo_rnd i = ''abcde''"

text \<open>The two providers again, the second one failing to list its tools, at every call.\<close>

definition half_env :: env where
  "half_env =
     (catalogue_env add_catalogues)
       \<lparr>mcp_listTools := (\<lambda>i w. if i = 0 then Inr [add_tool] else Inl (Rejected ''connection closed''))\<rparr>"

text \<open>The first session with a provider whose tool call fails after the operator has confirmed.\<close>

definition broken_tool_env :: env where
  "broken_tool_env =
     (demo_env ''add'' ''yes'')\<lparr>mcp_callTool := (\<lambda>i n a w. Inl (Rejected ''tool failed''))\<rparr>"



section \<open>Traces\<close>

lemma provider_calls_simps [simp]:
  "provider_calls [] = []"
  "provider_calls (w @ w') = provider_calls w @ provider_calls w'"
  "provider_calls (CallTool i n a # w) = (i, n, a) # provider_calls w"
  "provider_calls (Connect i t # w) = provider_calls w"
  "provider_calls (ListTools i # w) = provider_calls w"
  "provider_calls (Question q # w) = provider_calls w"
  "provider_calls (ConsoleLog l # w) = provider_calls w"
  "provider_calls (GenerateContent r # w) = provider_calls w"
  by (simp_all add: provider_calls_def)

lemma listTools_queries_simps [simp]:
  "listTools_queries [] = []"
  "listTools_queries (w @ w') = listTools_queries w @ listTools_queries w'"
  "listTools_queries (CallTool i n a # w) = listTools_queries w"
  "listTools_queries (Connect i t # w) = listTools_queries w"
  "listTools_queries (ListTools i # w) = i # listTools_queries w"
  "listTools_queries (Question q # w) = listTools_queries w"
  "listTools_queries (ConsoleLog l # w) = listTools_queries w"
  "listTools_queries (GenerateContent r # w) = listTools_queries w"
  by (simp_all add: listTools_queries_def)

lemma questions_simps [simp]:
  "questions [] = []"
  "questions (w @ w') = questions w @ questions w'"
  "questions (CallTool i n a # w) = questions w"
  "questions (Connect i t # w) = questions w"
  "questions (ListTools i # w) = questions w"
  "questions (Question q # w) = q # questions w"
  "questions (ConsoleLog l # w) = questions w"
  "questions (GenerateContent r # w) = questions w"
  by (simp_all add: questions_def)

lemma llm_requests_simps [simp]:
  "llm_requests [] = []"
  "llm_requests (w @ w') = llm_requests w @ llm_requests w'"
  "llm_requests (CallTool i n a # w) = llm_requests w"
  "llm_requests (Connect i t # w) = llm_requests w"
  "llm_requests (ListTools i # w) = llm_requests w"
  "llm_requests (Question q # w) = llm_requests w"
  "llm_requests (ConsoleLog l # w) = llm_requests w"
  "llm_requests (GenerateContent r # w) = r # llm_requests w"
  by (simp_all add: llm_requests_def)

lemma quiet_simps [simp]:
  "quiet []" "quiet (xs @ ys) \<longleftrightarrow> quiet xs \<and> quiet ys"
  "quiet (Connect i t # xs) \<longleftrightarrow> quiet xs" "quiet (ListTools i # xs) \<longleftrightarrow> quiet xs"
  by (auto simp: quiet_def)

lemma getTool_trace:
  assumes "getTool E i c w = (res, c', w')"
  shows "\<exists>evs. w' = w @ evs \<and> quiet evs \<and> (listTools_queries evs = [] \<or> listTools_queries evs = [i])"
  using assms
  by (auto simp: getTool_def initiate_def split: if_splits option.splits sum.splits prod.splits)

lemma getTool_tools:
  assumes "getTool E i c w = (Inr ts, c', w')"
  shows "tools c' = Some ts"
  using assms
  by (auto simp: getTool_def initiate_def split: if_splits option.splits sum.splits prod.splits)

lemma loadTools_for_trace:
  assumes "loadTools_for E i cs r w = (res, cs', r', w')"
  shows "\<exists>evs. w' = w @ evs \<and> quiet evs \<and> sorted_wrt (<) (listTools_queries evs)
           \<and> (\<forall>k \<in> set (listTools_queries evs). i \<le> k)"
  using assms
proof (induction cs arbitrary: i r w res cs' r' w')
  case Nil
  then show ?case by simp
next
  case (Cons c cs)
  obtain g c1 w1 where g: "getTool E i c w = (g, c1, w1)"
    by (cases "getTool E i c w") auto
  from getTool_trace [OF g] obtain evs1 where
    e1: "w1 = w @ evs1" "quiet evs1" "listTools_queries evs1 = [] \<or> listTools_queries evs1 = [i]"
    by blast
  show ?case
  proof (cases g)
    case (Inl e)
    with Cons.prems g have "w' = w1" by simp
    with e1 show ?thesis by auto
  next
    case (Inr ts)
    obtain res2 cs2 r2 w2 where
      rec: "loadTools_for E (Suc i) cs (foldl (register_tool i) r ts) w1 = (res2, cs2, r2, w2)"
      by (cases "loadTools_for E (Suc i) cs (foldl (register_tool i) r ts) w1") auto
    from Cons.IH [OF rec] obtain evs2 where
      e2: "w2 = w1 @ evs2" "quiet evs2" "sorted_wrt (<) (listTools_queries evs2)"
          "\<forall>k \<in> set (listTools_queries evs2). Suc i \<le> k"
      by blast
    from Cons.prems g Inr rec have "w' = w2" by simp
    with e1 e2 have "w' = w @ (evs1 @ evs2)" by simp
    moreover have "quiet (evs1 @ evs2)" using e1 e2 by simp
    moreover have "sorted_wrt (<) (listTools_queries (evs1 @ evs2))"
      using e1(3) e2(3,4) by (auto simp: sorted_wrt_append)
    moreover have "\<forall>k \<in> set (listTools_queries (evs1 @ evs2)). i \<le> k"
      using e1(3) e2(4) by auto
    ultimately show ?thesis by blast
  qed
qed

lemma sorted_count_le_1:
  fixes xs :: "nat list"
  assumes "sorted_wrt (<) xs"
  shows "count_list xs k \<le> 1"
  using assms
proof (induction xs)
  case Nil
  then show ?case by simp
next
  case (Cons x xs)
  show ?case
  proof (cases "x = k")
    case True
    with Cons.prems have "k \<notin> set xs" by auto
    then have "count_list xs k = 0" by (simp add: count_list_0_iff)
    with True show ?thesis by simp
  next
    case False
    with Cons show ?thesis by simp
  qed
qed

lemma loadTools_trace:
  assumes "loadTools E a w = (res, a', w')"
  shows "\<exists>evs. w' = w @ evs \<and> quiet evs \<and> (\<forall>k. count_list (listTools_queries evs) k \<le> 1)"
proof (cases "cachedTools a")
  case (Some r)
  with assms have "w' = w" by (simp add: loadTools_def)
  then show ?thesis by simp
next
  case None
  obtain res2 cs2 r2 w2 where
    rec: "loadTools_for E 0 (mcpClients a) registry_empty w = (res2, cs2, r2, w2)"
    by (cases "loadTools_for E 0 (mcpClients a) registry_empty w") auto
  with None assms have "w' = w2" by (auto simp: loadTools_def split: option.splits)
  from loadTools_for_trace [OF rec] obtain evs where
    evs: "w2 = w @ evs" "quiet evs" "sorted_wrt (<) (listTools_queries evs)"
    by blast
  from evs(3) have "\<forall>k. count_list (listTools_queries evs) k \<le> 1"
    by (blast intro: sorted_count_le_1)
  with evs \<open>w' = w2\<close> show ?thesis by blast
qed

lemma loadTools_again:
  assumes "loadTools E a w = (res, a', w')"
  shows "\<exists>r. cachedTools a' = Some r \<and> loadTools E' a' w'' = (Inr (declarations r), a', w'')
           \<and> (\<forall>d. res = Inr d \<longrightarrow> d = declarations r)"
  using assms by (auto simp: loadTools_def split: option.splits prod.splits)


section \<open>Objects and the registry\<close>

lemma map_of_obj_insert:
  "map_of ps k = None \<Longrightarrow> map_of (obj_insert ps k v) = (map_of ps)(k \<mapsto> v)"
proof (induction ps)
  case Nil
  then show ?case by simp
next
  case (Cons p ps)
  obtain k' v' where p: "p = (k', v')" by (cases p)
  with Cons.prems have ne: "k' \<noteq> k" and none: "map_of ps k = None"
    by (auto split: if_splits)
  from Cons.IH [OF none] p ne show ?case
    by (auto simp: fun_upd_twist)
qed

lemma map_of_obj_set: "map_of (obj_set ps k v) = (map_of ps)(k \<mapsto> v)"
  by (auto simp: obj_set_def map_of_obj_insert update_conv')

lemma set_obj_insert: "set (obj_insert ps k v) = insert (k, v) (set ps)"
  by (induction ps) (auto split: if_splits)

lemma set_alist_update: "set (AList.update k v ps) \<subseteq> insert (k, v) (set ps)"
  by (induction ps) auto

lemma set_obj_set: "set (obj_set ps k v) \<subseteq> insert (k, v) (set ps)"
  using set_alist_update [of k v ps]
  by (auto simp: obj_set_def set_obj_insert)

lemma map_of_assign_keys:
  "map_of (foldl (\<lambda>parameters key. js_assign parameters key (obj_get s key)) p0 keys) k
     = (if k \<in> set keys \<and> k \<noteq> ''__proto__'' then Some (obj_get s k) else map_of p0 k)"
  by (induction keys arbitrary: p0) (auto simp: js_assign_def map_of_obj_set)

lemma map_of_build_parameters:
  "map_of (build_parameters s) k
     = (if k \<in> {''additionalProperties'', ''$schema'', ''__proto__''} then None else map_of s k)"
proof (cases "map_of s k")
  case None
  then have "k \<notin> fst ` set s" by (simp add: map_of_eq_None_iff)
  with None show ?thesis
    by (simp add: build_parameters_def map_of_assign_keys)
next
  case (Some v)
  then have "k \<in> fst ` set s" by (metis map_of_eq_None_iff option.distinct(1))
  then have "map_of (build_parameters s) k
      = (if k \<in> {''additionalProperties'', ''$schema'', ''__proto__''} then None
         else Some (obj_get s k))"
    by (auto simp: build_parameters_def map_of_assign_keys)
  with Some show ?thesis
    by (simp add: obj_get_def)
qed


lemma registry_assign_proto_free:
  "map_of (reg_own r) ''__proto__'' = None \<Longrightarrow> map_of (reg_own (registry_assign r k e)) ''__proto__'' = None"
  by (simp add: registry_assign_def map_of_obj_set)

lemma registry_lookup_assign:
  "map_of (reg_own r) ''__proto__'' = None \<Longrightarrow>
   registry_lookup (registry_assign r k e) k' = (if k' = k then Some e else registry_lookup r k')"
  by (auto simp: registry_lookup_def registry_assign_def map_of_obj_set split: option.splits)

lemma registry_lookup_binding:
  "registry_lookup r n = Some e \<Longrightarrow> (n, e) \<in> registry_bindings r"
  by (auto simp: registry_lookup_def registry_bindings_def split: option.splits if_splits
      dest: map_of_SomeD)

lemma registry_bindings_assign:
  "registry_bindings (registry_assign r k e) \<subseteq> insert (k, e) (registry_bindings r)"
  using set_obj_set [of "reg_own r" k e]
  by (auto simp: registry_bindings_def registry_assign_def split: option.splits)

lemma register_tools_proto_free:
  "map_of (reg_own r) ''__proto__'' = None \<Longrightarrow>
   map_of (reg_own (foldl (register_tool i) r ts)) ''__proto__'' = None"
  by (induction ts arbitrary: r) (simp_all add: register_tool_def registry_assign_proto_free)

lemma register_tools_bindings:
  "registry_bindings (foldl (register_tool i) r ts)
     \<subseteq> registry_bindings r \<union> (\<lambda>t. (tool_name t, tool_entry i t)) ` set ts"
proof (induction ts arbitrary: r)
  case Nil
  then show ?case by simp
next
  case (Cons t ts)
  from Cons.IH [of "register_tool i r t"]
    registry_bindings_assign [of r "tool_name t" "tool_entry i t"]
  show ?case by (auto simp: register_tool_def)
qed

lemma register_tools_lookup:
  assumes "map_of (reg_own r) ''__proto__'' = None"
  shows "registry_lookup (foldl (register_tool i) r ts) n
     = (if n \<in> tool_name ` set ts then Some (tool_entry i (last (filter (\<lambda>t. tool_name t = n) ts)))
        else registry_lookup r n)"
  using assms
proof (induction ts arbitrary: r)
  case Nil
  then show ?case by simp
next
  case (Cons t ts)
  have inv: "map_of (reg_own (register_tool i r t)) ''__proto__'' = None"
    using Cons.prems by (simp add: register_tool_def registry_assign_proto_free)
  have here: "registry_lookup (register_tool i r t) n
      = (if n = tool_name t then Some (tool_entry i t) else registry_lookup r n)"
    using Cons.prems by (simp add: register_tool_def registry_lookup_assign)
  show ?case
  proof (cases "n \<in> tool_name ` set ts")
    case True
    then have "filter (\<lambda>t. tool_name t = n) ts \<noteq> []"
      by (auto simp: filter_empty_conv)
    with True Cons.IH [OF inv] show ?thesis by simp
  next
    case False
    then have "filter (\<lambda>t. tool_name t = n) ts = []"
      by (auto simp: filter_empty_conv)
    with False Cons.IH [OF inv] here show ?thesis by auto
  qed
qed

lemma registered_absent:
  assumes "map_of (reg_own r) ''__proto__'' = None"
      and "\<And>c ts. c \<in> set cs \<Longrightarrow> tools c = Some ts \<Longrightarrow> n \<notin> tool_name ` set ts"
  shows "registry_lookup (registered i cs r) n = registry_lookup r n"
  using assms
proof (induction cs arbitrary: i r)
  case Nil
  then show ?case by simp
next
  case (Cons c cs)
  let ?ts = "case tools c of None \<Rightarrow> [] | Some ts \<Rightarrow> ts"
  have no: "n \<notin> tool_name ` set ?ts"
    using Cons.prems(2) [of c] by (cases "tools c") auto
  have "registry_lookup (registered (Suc i) cs (foldl (register_tool i) r ?ts)) n
      = registry_lookup (foldl (register_tool i) r ?ts) n"
    using Cons.prems by (intro Cons.IH) (auto simp: register_tools_proto_free)
  with no Cons.prems(1) show ?case
    by (simp add: register_tools_lookup)
qed

lemma registered_last:
  assumes "map_of (reg_own r) ''__proto__'' = None"
      and "tools c = Some ts" and "n \<in> tool_name ` set ts"
      and "\<And>c' ts'. c' \<in> set post \<Longrightarrow> tools c' = Some ts' \<Longrightarrow> n \<notin> tool_name ` set ts'"
  shows "registry_lookup (registered i (pre @ c # post) r) n
     = Some (tool_entry (i + length pre) (last (filter (\<lambda>t. tool_name t = n) ts)))"
  using assms(1)
proof (induction pre arbitrary: i r)
  case Nil
  have "registry_lookup (registered (Suc i) post (foldl (register_tool i) r ts)) n
      = registry_lookup (foldl (register_tool i) r ts) n"
    using Nil assms(4) by (intro registered_absent) (auto simp: register_tools_proto_free)
  with Nil assms(2,3) show ?case
    by (simp add: register_tools_lookup)
next
  case (Cons p pre)
  let ?ts = "case tools p of None \<Rightarrow> [] | Some ts \<Rightarrow> ts"
  have "map_of (reg_own (foldl (register_tool i) r ?ts)) ''__proto__'' = None"
    using Cons.prems by (simp add: register_tools_proto_free)
  from Cons.IH [OF this, of "Suc i"] show ?case by simp
qed


lemma loadTools_for_registered:
  "loadTools_for E i cs r w = (None, cs', r', w') \<Longrightarrow> r' = registered i cs' r"
proof (induction cs arbitrary: i r w cs' r' w')
  case Nil
  then show ?case by simp
next
  case (Cons c cs)
  then show ?case
    by (auto split: prod.splits sum.splits dest: getTool_tools)
qed

lemma loadTools_for_bindings:
  assumes "loadTools_for E i cs r w = (res, cs', r', w')"
  shows "registry_bindings r'
     \<subseteq> registry_bindings r
       \<union> {(tool_name t, tool_entry (i + k) t) | k t ts. k < length cs' \<and> tools (cs' ! k) = Some ts \<and> t \<in> set ts}"
  using assms
proof (induction cs arbitrary: i r w res cs' r' w')
  case Nil
  then show ?case by auto
next
  case (Cons c cs)
  obtain g c1 w1 where g: "getTool E i c w = (g, c1, w1)"
    by (cases "getTool E i c w") auto
  show ?case
  proof (cases g)
    case (Inl e)
    with Cons.prems g have "r' = r" by simp
    then show ?thesis by auto
  next
    case (Inr ts)
    obtain res2 cs2 r2 w2 where
      rec: "loadTools_for E (Suc i) cs (foldl (register_tool i) r ts) w1 = (res2, cs2, r2, w2)"
      by (cases "loadTools_for E (Suc i) cs (foldl (register_tool i) r ts) w1") auto
    from Cons.prems g Inr rec have eq: "r' = r2" "cs' = c1 # cs2" by simp_all
    from g Inr have c1: "tools c1 = Some ts" by (simp add: getTool_tools)
    show ?thesis
    proof
      fix b
      assume "b \<in> registry_bindings r'"
      with eq Cons.IH [OF rec]
      consider (old) "b \<in> registry_bindings (foldl (register_tool i) r ts)"
        | (new) k t ts' where "b = (tool_name t, tool_entry (Suc i + k) t)" "k < length cs2"
            "tools (cs2 ! k) = Some ts'" "t \<in> set ts'"
        by blast
      then show "b \<in> registry_bindings r
         \<union> {(tool_name t, tool_entry (i + k) t) | k t ts.
              k < length cs' \<and> tools (cs' ! k) = Some ts \<and> t \<in> set ts}"
      proof cases
        case old
        with register_tools_bindings [of i r ts]
        consider "b \<in> registry_bindings r" | t where "t \<in> set ts" "b = (tool_name t, tool_entry i t)"
          by blast
        then show ?thesis
        proof cases
          case 1
          then show ?thesis by simp
        next
          case 2
          with c1 eq have "\<exists>k t' ts'. b = (tool_name t', tool_entry (i + k) t') \<and> k < length cs'
              \<and> tools (cs' ! k) = Some ts' \<and> t' \<in> set ts'"
            by (intro exI [of _ 0] exI [of _ t] exI [of _ ts]) simp
          then show ?thesis by blast
        qed
      next
        case new
        with eq have "\<exists>k' t' ts''. b = (tool_name t', tool_entry (i + k') t') \<and> k' < length cs'
              \<and> tools (cs' ! k') = Some ts'' \<and> t' \<in> set ts''"
          by (intro exI [of _ "Suc k"] exI [of _ t] exI [of _ ts']) simp
        then show ?thesis by blast
      qed
    qed
  qed
qed

lemma registry_empty_simps [simp]:
  "reg_own registry_empty = []" "reg_proto registry_empty = None" "registry_bindings registry_empty = {}"
  by (simp_all add: registry_empty_def registry_bindings_def)

lemma loadTools_fresh:
  assumes "cachedTools a = None" and "loadTools E a w = (res, a', w')"
  shows "\<exists>res0 r. loadTools_for E 0 (mcpClients a) registry_empty w = (res0, mcpClients a', r, w')
           \<and> cachedTools a' = Some r \<and> (res0 = None \<longleftrightarrow> (\<exists>d. res = Inr d))"
  using assms by (auto simp: loadTools_def split: prod.splits option.splits)

lemma getTool_ok:
  assumes "\<And>t tr. mcp_connect E i t tr = None" and "\<And>tr. \<exists>ts. mcp_listTools E i tr = Inr ts"
  shows "\<exists>ts c' w'. getTool E i c w = (Inr ts, c', w')"
proof -
  obtain ts1 where "mcp_listTools E i w = Inr ts1" using assms(2) by blast
  moreover obtain ts2 where "mcp_listTools E i (w @ [Connect i (transport c)]) = Inr ts2"
    using assms(2) by blast
  ultimately show ?thesis
    using assms(1) by (auto simp: getTool_def initiate_def split: option.splits)
qed

lemma loadTools_for_ok:
  assumes "\<And>k t tr. mcp_connect E k t tr = None" and "\<And>k tr. \<exists>ts. mcp_listTools E k tr = Inr ts"
  shows "fst (loadTools_for E i cs r w) = None"
proof (induction cs arbitrary: i r w)
  case Nil
  then show ?case by simp
next
  case (Cons c cs)
  from getTool_ok [of E i c w] assms obtain ts c' w' where g: "getTool E i c w = (Inr ts, c', w')"
    by blast
  from Cons [of "Suc i" "foldl (register_tool i) r ts" w'] g show ?case
    by (auto split: prod.splits)
qed

text \<open>The last registration under a name is the one the registry keeps.\<close>

lemma loadTools_last_entry:
  assumes fresh: "cachedTools a = None"
      and connect_ok: "\<And>k t tr. mcp_connect E k t tr = None"
      and list_ok: "\<And>k tr. \<exists>ts. mcp_listTools E k tr = Inr ts"
      and run: "loadTools E a w = (res, a', w')"
      and ij: "i < j" "j < length (mcpClients a')"
      and first: "tools (mcpClients a' ! i) = Some tsi" "n \<in> tool_name ` set tsi"
      and second: "tools (mcpClients a' ! j) = Some tsj" "n \<in> tool_name ` set tsj"
      and later: "\<And>k ts. j < k \<Longrightarrow> k < length (mcpClients a') \<Longrightarrow> tools (mcpClients a' ! k) = Some ts
                    \<Longrightarrow> n \<notin> tool_name ` set ts"
  shows "(\<exists>d. res = Inr d)
       \<and> (\<exists>reg. cachedTools a' = Some reg
              \<and> registry_lookup reg n = Some (tool_entry j (last (filter (\<lambda>t. tool_name t = n) tsj)))
              \<and> (\<forall>t. registry_lookup reg n \<noteq> Some (tool_entry i t)))"
proof -
  let ?cs = "mcpClients a'"
  from loadTools_fresh [OF fresh run] obtain res0 reg where
    lf: "loadTools_for E 0 (mcpClients a) registry_empty w = (res0, ?cs, reg, w')"
    and reg: "cachedTools a' = Some reg" and res: "res0 = None \<longleftrightarrow> (\<exists>d. res = Inr d)"
    by blast
  from loadTools_for_ok [OF connect_ok list_ok, of 0 "mcpClients a" registry_empty w] lf
  have none: "res0 = None" by simp
  with lf have r: "reg = registered 0 ?cs registry_empty"
    by (simp add: loadTools_for_registered)
  have split: "?cs = take j ?cs @ ?cs ! j # drop (Suc j) ?cs"
    using ij(2) by (rule id_take_nth_drop)
  have post: "n \<notin> tool_name ` set ts'" if "c' \<in> set (drop (Suc j) ?cs)" "tools c' = Some ts'" for c' ts'
  proof -
    from that(1) obtain m where m: "m < length (drop (Suc j) ?cs)" "c' = drop (Suc j) ?cs ! m"
      by (auto simp: in_set_conv_nth)
    then have "c' = ?cs ! (Suc j + m)" "Suc j + m < length ?cs" by auto
    with later [of "Suc j + m" ts'] that(2) show ?thesis by simp
  qed
  have "registry_lookup (registered 0 (take j ?cs @ ?cs ! j # drop (Suc j) ?cs) registry_empty) n
      = Some (tool_entry (0 + length (take j ?cs)) (last (filter (\<lambda>t. tool_name t = n) tsj)))"
    using second post by (intro registered_last) auto
  with split r ij(2) have lookup:
    "registry_lookup reg n = Some (tool_entry j (last (filter (\<lambda>t. tool_name t = n) tsj)))"
    by (simp add: min_def)
  have "tool_entry j u \<noteq> tool_entry i t" for u t
    using ij(1) by (simp add: tool_entry_def)
  with lookup reg none res show ?thesis by auto
qed


section \<open>Configuration descriptors\<close>

lemma client_of_entry_error:
  "client_of_entry s entry = Inl e \<longleftrightarrow>
     obj_has (snd entry) ''url'' \<and> obj_get (snd entry) ''type'' \<noteq> JStr ''http''
     \<and> obj_get (snd entry) ''type'' \<noteq> JStr ''sse'' \<and> e = UnknownTransportType (obj_get (snd entry) ''type'')"
  by (cases entry) (auto simp: client_of_entry_def)

lemma getMCPClients_from_error:
  assumes "entry \<in> set mcpConfig" and "obj_has (snd entry) ''url''"
      and "obj_get (snd entry) ''type'' \<noteq> JStr ''http''" and "obj_get (snd entry) ''type'' \<noteq> JStr ''sse''"
  shows "\<exists>t. t \<noteq> JStr ''http'' \<and> t \<noteq> JStr ''sse'' \<and> getMCPClients_from rnd i mcpConfig = Inl (UnknownTransportType t)"
  using assms(1)
proof (induction mcpConfig arbitrary: i)
  case Nil
  then show ?case by simp
next
  case (Cons x xs)
  show ?case
  proof (cases "client_of_entry (rnd i) x")
    case (Inl e)
    then have "obj_get (snd x) ''type'' \<noteq> JStr ''http''" "obj_get (snd x) ''type'' \<noteq> JStr ''sse''"
      "e = UnknownTransportType (obj_get (snd x) ''type'')"
      by (simp_all add: client_of_entry_error)
    with Inl show ?thesis by simp
  next
    case (Inr c)
    with assms(2-4) have "x \<noteq> entry"
      using client_of_entry_error [of "rnd i" entry "UnknownTransportType (obj_get (snd entry) ''type'')"]
      by auto
    with Cons.prems have "entry \<in> set xs" by simp
    from Cons.IH [OF this, of "Suc i"] Inr show ?thesis by auto
  qed
qed


section \<open>One round of the turn loop\<close>

lemma function_calls_simps [simp]:
  "function_calls [] = []"
  "function_calls (ps @ qs) = function_calls ps @ function_calls qs"
  "function_calls (p # ps) = (case p_functionCall p of Value fc \<Rightarrow> [fc] | _ \<Rightarrow> []) @ function_calls ps"
  by (simp_all add: function_calls_def)

lemma callTool_result:
  assumes "callTool E i n args w = (Inr out, w')"
  shows "questions w' = questions w @ [confirm_prompt E n args]"
    and "llm_requests w' = llm_requests w"
    and "listTools_queries w' = listTools_queries w"
    and "provider_calls w' = provider_calls w @ (if success out then [(i, n, args)] else [])"
  using assms by (auto simp: callTool_def Let_def split: sum.splits if_splits)

lemma processQuery_loop_return:
  assumes "loadTools E a w = (Inr ts, a1, w1)"
      and "generateContent E (llm_request cc ts) w1 = Inr resp"
      and "candidates resp = cand # rest"
      and "list_all no_functionCall (parts (content cand))"
  shows "processQuery_loop E a cc w
     = Some (Inr (resp, cc @ [content cand]), a1,
             w1 @ [GenerateContent (llm_request cc ts)])"
  using assms by (subst processQuery_loop.simps) (simp add: Let_def)

lemma processQuery_loop_dispatch:
  assumes "loadTools E a w = (Inr ts, a1, w1)"
      and "generateContent E (llm_request cc ts) w1 = Inr resp"
      and "candidates resp = cand # rest"
      and "\<not> list_all no_functionCall (parts (content cand))"
      and "dispatch_parts E (cachedTools a1) (parts (content cand)) []
             (w1 @ [GenerateContent (llm_request cc ts)])
           = (Inr frp, w3)"
  shows "processQuery_loop E a cc w
     = processQuery_loop E a1 (cc @ [content cand, results_turn frp]) w3"
  using assms by (subst processQuery_loop.simps) (simp add: Let_def)

lemma processQuery_loop_fault:
  assumes "loadTools E a w = (Inr ts, a1, w1)"
      and "generateContent E (llm_request cc ts) w1 = Inr resp"
      and "candidates resp = cand # rest"
      and "\<not> list_all no_functionCall (parts (content cand))"
      and "dispatch_parts E (cachedTools a1) (parts (content cand)) []
             (w1 @ [GenerateContent (llm_request cc ts)])
           = (Inl e, w3)"
  shows "processQuery_loop E a cc w = Some (Inl e, a1, w3)"
  using assms by (subst processQuery_loop.simps) (simp add: Let_def)

text \<open>The calls of a reply, run one after the other.\<close>

lemma dispatch_chain:
  assumes "dispatch_parts E cached ps acc w = (Inr frp, w')"
  shows "\<exists>outs ws. length outs = length (function_calls ps)
           \<and> length ws = Suc (length (function_calls ps))
           \<and> hd ws = w \<and> last ws = w'
           \<and> (\<forall>k < length (function_calls ps).
                 \<exists>i. functionClient cached (fc_name (function_calls ps ! k)) = Inr i
                    \<and> callTool E i (fc_name (function_calls ps ! k)) (fc_args (function_calls ps ! k)) (ws ! k)
                        = (Inr (outs ! k), ws ! Suc k))
           \<and> frp = acc @ map (\<lambda>(fc, out). result_part fc out) (zip (function_calls ps) outs)"
  using assms
proof (induction ps arbitrary: acc w)
  case Nil
  then show ?case
    by (intro exI [of _ "[]"] exI [of _ "[w]"]) simp
next
  case (Cons p ps)
  show ?case
  proof (cases "p_functionCall p")
    case (Value fc)
    from Cons.prems Value obtain i where i: "functionClient cached (fc_name fc) = Inr i"
      by (cases "functionClient cached (fc_name fc)") auto
    from Cons.prems Value i obtain out w1 where
      c: "callTool E i (fc_name fc) (fc_args fc) w = (Inr out, w1)"
      by (cases "callTool E i (fc_name fc) (fc_args fc) w" rule: prod.exhaust [case_names Pair])
         (auto split: sum.splits)
    let ?x = "result_part fc out"
    from Cons.prems Value i c have rest: "dispatch_parts E cached ps (acc @ [?x]) w1 = (Inr frp, w')"
      by simp
    from Cons.IH [OF rest] obtain outs ws where
      ih: "length outs = length (function_calls ps)" "length ws = Suc (length (function_calls ps))"
        "hd ws = w1" "last ws = w'"
        "\<forall>k < length (function_calls ps).
            \<exists>i. functionClient cached (fc_name (function_calls ps ! k)) = Inr i
               \<and> callTool E i (fc_name (function_calls ps ! k)) (fc_args (function_calls ps ! k)) (ws ! k)
                   = (Inr (outs ! k), ws ! Suc k)"
        "frp = (acc @ [?x]) @ map (\<lambda>(fc, out). result_part fc out) (zip (function_calls ps) outs)"
      by blast
    have calls: "function_calls (p # ps) = fc # function_calls ps"
      using Value by simp
    from ih(2,3) have ws0: "ws ! 0 = w1" by (cases ws) auto
    have step: "\<exists>i. functionClient cached (fc_name ((fc # function_calls ps) ! k)) = Inr i
               \<and> callTool E i (fc_name ((fc # function_calls ps) ! k)) (fc_args ((fc # function_calls ps) ! k))
                    ((w # ws) ! k)
                   = (Inr ((out # outs) ! k), (w # ws) ! Suc k)"
      if "k < length (fc # function_calls ps)" for k
    proof (cases k)
      case 0
      with i c ws0 show ?thesis by simp
    next
      case (Suc m)
      with that ih(5) show ?thesis by simp
    qed
    have "last (w # ws) = w'" using ih(2,4) by (cases ws) auto
    with ih(1,2,6) step calls show ?thesis
      by (intro exI [of _ "out # outs"] exI [of _ "w # ws"]) simp
  next
    case Absent
    with Cons.prems have "dispatch_parts E cached ps acc w = (Inr frp, w')" by simp
    from Cons.IH [OF this] Absent show ?thesis by simp
  next
    case Nullish
    with Cons.prems have "dispatch_parts E cached ps acc w = (Inr frp, w')" by simp
    from Cons.IH [OF this] Nullish show ?thesis by simp
  qed
qed

text \<open>What a normal return of the loop looks like, by fixed-point induction.\<close>

lemma processQuery_loop_returned:
  assumes "processQuery_loop E a cc w = Some y"
  shows "case y of
           (Inl e, a', w') \<Rightarrow> True
         | (Inr (resp, history), a', w') \<Rightarrow>
             (\<exists>cand rest. candidates resp = cand # rest \<and> last history = content cand
                \<and> history \<noteq> [] \<and> prefix cc history
                \<and> list_all no_functionCall (parts (content cand)))"
proof (rule processQuery_loop.raw_induct
    [where P = "\<lambda>E a cc w y. case y of
           (Inl e, a', w') \<Rightarrow> True
         | (Inr (resp, history), a', w') \<Rightarrow>
             (\<exists>cand rest. candidates resp = cand # rest \<and> last history = content cand
                \<and> history \<noteq> [] \<and> prefix cc history
                \<and> list_all no_functionCall (parts (content cand)))", OF _ assms])
  fix loop :: "env \<Rightarrow> mcp_agent \<Rightarrow> turn list \<Rightarrow> world
     \<Rightarrow> ((error + response \<times> turn list) \<times> mcp_agent \<times> world) option"
  fix E a cc w y
  let ?P = "\<lambda>cc y. case y of
           (Inl e, a', w') \<Rightarrow> True
         | (Inr (resp, history), a', w') \<Rightarrow>
             (\<exists>cand rest. candidates resp = cand # rest \<and> last history = content cand
                \<and> history \<noteq> [] \<and> prefix cc history
                \<and> list_all no_functionCall (parts (content cand)))"
  assume IH: "\<And>E a cc w y. loop E a cc w = Some y \<Longrightarrow> ?P cc y"
  assume body: "(case loadTools E a w of
        (Inl e, a1, w1) \<Rightarrow> Some (Inl e, a1, w1)
      | (Inr ts, a1, w1) \<Rightarrow>
          (let w2 = w1 @ [GenerateContent (llm_request cc ts)]
           in case generateContent E (llm_request cc ts) w1 of
                Inl e \<Rightarrow> Some (Inl e, a1, w2)
              | Inr resp \<Rightarrow>
                  (case candidates resp of
                     [] \<Rightarrow> Some (Inl TypeError, a1, w2)
                   | cand # _ \<Rightarrow>
                       if list_all no_functionCall (parts (content cand))
                       then Some (Inr (resp, cc @ [content cand]), a1, w2)
                       else (case dispatch_parts E (cachedTools a1) (parts (content cand)) [] w2 of
                               (Inl e, w3) \<Rightarrow> Some (Inl e, a1, w3)
                             | (Inr functionResponseParts, w3) \<Rightarrow>
                                 loop E a1 (cc @ [content cand, results_turn functionResponseParts]) w3)))) = Some y"
  note 1 = IH body
  show "?P cc y"
  proof (cases "loadTools E a w" rule: prod_cases3)
    case (fields res a1 w1)
    show ?thesis
    proof (cases res)
      case (Inl e)
      with 1 fields show ?thesis by auto
    next
      case (Inr ts)
      show ?thesis
      proof (cases "generateContent E (llm_request cc ts) w1")
        case (Inl e)
        with 1 fields Inr show ?thesis by (auto simp: Let_def)
      next
        case gen: (Inr resp)
        show ?thesis
        proof (cases "candidates resp")
          case Nil
          with 1 fields Inr gen show ?thesis by (auto simp: Let_def)
        next
          case (Cons cand rest)
          show ?thesis
          proof (cases "list_all no_functionCall (parts (content cand))")
            case True
            with 1 fields Inr gen Cons show ?thesis by (auto simp: Let_def)
          next
            case False
            obtain d w3 where d: "dispatch_parts E (cachedTools a1) (parts (content cand)) []
                (w1 @ [GenerateContent (llm_request cc ts)]) = (d, w3)"
              by (cases "dispatch_parts E (cachedTools a1) (parts (content cand)) []
                (w1 @ [GenerateContent (llm_request cc ts)])") auto
            show ?thesis
            proof (cases d)
              case (Inl e)
              with 1 fields Inr gen Cons False d show ?thesis by (auto simp: Let_def)
            next
              case frp: (Inr frp)
              with body fields Inr gen Cons False d
              have rec: "loop E a1 (cc @ [content cand, results_turn frp]) w3 = Some y"
                by (simp add: Let_def)
              show ?thesis
              proof (cases y rule: prod_cases3)
                case y: (fields res' a' w')
                show ?thesis
                proof (cases res')
                  case (Inl e)
                  with y show ?thesis by simp
                next
                  case ok: (Inr rh)
                  obtain resp' history where rh: "rh = (resp', history)" by (cases rh)
                  from IH [OF rec] y ok rh obtain cand' rest' where
                    c: "candidates resp' = cand' # rest'" "last history = content cand'"
                       "history \<noteq> []" "prefix (cc @ [content cand, results_turn frp]) history"
                       "list_all no_functionCall (parts (content cand'))"
                    by auto
                  from c(4) have "prefix cc history" by (rule append_prefixD)
                  with c y ok rh show ?thesis by simp
                qed
              qed
            qed
          qed
        qed
      qed
    qed
  qed
qed

lemma dispatch_no_calls:
  "function_calls ps = [] \<Longrightarrow> dispatch_parts E cached ps acc w = (Inr acc, w)"
proof (induction ps arbitrary: acc w)
  case Nil
  then show ?case by simp
next
  case (Cons p ps)
  then show ?case by (cases "p_functionCall p") simp_all
qed

lemma dispatch_one_call:
  assumes "function_calls ps = [fc]"
      and "functionClient cached (fc_name fc) = Inr i"
      and "callTool E i (fc_name fc) (fc_args fc) w = (Inr out, w')"
  shows "dispatch_parts E cached ps acc w = (Inr (acc @ [result_part fc out]), w')"
  using assms(1)
proof (induction ps arbitrary: acc)
  case Nil
  then show ?case by simp
next
  case (Cons p ps)
  show ?case
  proof (cases "p_functionCall p")
    case (Value fc')
    with Cons.prems have "fc' = fc" "function_calls ps = []" by simp_all
    with Value assms(2,3) show ?thesis by (simp add: dispatch_no_calls)
  next
    case Absent
    with Cons show ?thesis by simp
  next
    case Nullish
    with Cons show ?thesis by simp
  qed
qed

lemma calls_not_all_absent:
  "function_calls ps \<noteq> [] \<Longrightarrow> \<not> list_all no_functionCall ps"
  by (induction ps) (auto simp: no_functionCall_def)

text \<open>A call for a name the registry does not hold is a fault, before any effect.\<close>

lemma dispatch_unknown_first:
  assumes "function_calls ps = fc # fcs" and "functionClient cached (fc_name fc) = Inl e"
  shows "dispatch_parts E cached ps acc w = (Inl e, w)"
  using assms(1)
proof (induction ps)
  case Nil
  then show ?case by simp
next
  case (Cons p ps)
  show ?case
  proof (cases "p_functionCall p")
    case (Value fc')
    with Cons.prems have "fc' = fc" by simp
    with Value assms(2) show ?thesis by simp
  next
    case Absent
    with Cons show ?thesis by simp
  next
    case Nullish
    with Cons show ?thesis by simp
  qed
qed

lemma processQuery_loop_unknown_tool:
  assumes load: "loadTools E a w = (Inr ts, a1, w1)"
      and reply: "generateContent E (llm_request cc ts) w1 = Inr resp"
      and first: "candidates resp = cand # rest"
      and call: "function_calls (parts (content cand)) = fc # fcs"
      and cache: "cachedTools a1 = Some reg"
      and unknown: "registry_lookup reg (fc_name fc) = None"
  shows "processQuery_loop E a cc w = Some (Inl TypeError, a1, w1 @ [GenerateContent (llm_request cc ts)])"
proof -
  have "functionClient (cachedTools a1) (fc_name fc) = Inl TypeError"
    using cache unknown by (simp add: functionClient_def)
  from dispatch_unknown_first [OF call this]
  have "dispatch_parts E (cachedTools a1) (parts (content cand)) []
          (w1 @ [GenerateContent (llm_request cc ts)])
        = (Inl TypeError, w1 @ [GenerateContent (llm_request cc ts)])" .
  moreover have "\<not> list_all no_functionCall (parts (content cand))"
    using call by (intro calls_not_all_absent) simp
  ultimately show ?thesis
    using processQuery_loop_fault [OF load reply first] by blast
qed

text \<open>A round with one call, followed by a round that ends the query.\<close>

lemma processQuery_call_then_text_run:
  assumes load: "loadTools E a w = (Inr ts, a1, w1)"
      and reply1: "generateContent E (llm_request (savedContent @ [user_turn query r]) ts) w1 = Inr resp1"
      and first1: "candidates resp1 = cand1 # rest1"
      and one_call: "function_calls (parts (content cand1)) = [fc]"
      and known: "functionClient (cachedTools a1) (fc_name fc) = Inr i"
      and tool: "callTool E i (fc_name fc) (fc_args fc)
                   (w1 @ [GenerateContent (llm_request (savedContent @ [user_turn query r]) ts)])
                 = (Inr out, w3)"
      and reply2: "generateContent E
                     (llm_request (savedContent @ [user_turn query r, content cand1,
                                                   results_turn [result_part fc out]]) ts) w3
                   = Inr resp2"
      and first2: "candidates resp2 = cand2 # rest2"
      and plain: "list_all no_functionCall (parts (content cand2))"
  shows "\<exists>evs. processQuery E a query r savedContent w
            = Some (Inr (resp2, savedContent @ [user_turn query r, content cand1,
                                                results_turn [result_part fc out], content cand2]),
                    a1, w @ evs)
         \<and> llm_requests evs
             = [llm_request (savedContent @ [user_turn query r]) ts,
                llm_request (savedContent @ [user_turn query r, content cand1,
                                             results_turn [result_part fc out]]) ts]
         \<and> questions evs = [confirm_prompt E (fc_name fc) (fc_args fc)]
         \<and> provider_calls evs = (if success out then [(i, fc_name fc, fc_args fc)] else [])"
proof -
  let ?cc1 = "savedContent @ [user_turn query r]"
  let ?req1 = "llm_request ?cc1 ts"
  let ?cc2 = "?cc1 @ [content cand1, results_turn [result_part fc out]]"
  let ?req2 = "llm_request ?cc2 ts"
  from loadTools_trace [OF load] obtain evs1 where evs1: "w1 = w @ evs1" "quiet evs1"
    by blast
  from tool obtain evs2 where evs2: "w3 = (w1 @ [GenerateContent ?req1]) @ evs2"
    by (auto simp: callTool_def Let_def split: sum.splits if_splits)
  from callTool_result [OF tool] evs2 have q2: "questions evs2 = [confirm_prompt E (fc_name fc) (fc_args fc)]"
    "llm_requests evs2 = []"
    "provider_calls evs2 = (if success out then [(i, fc_name fc, fc_args fc)] else [])"
    by simp_all
  have calls: "\<not> list_all no_functionCall (parts (content cand1))"
    using one_call by (intro calls_not_all_absent) simp
  have disp: "dispatch_parts E (cachedTools a1) (parts (content cand1)) [] (w1 @ [GenerateContent ?req1])
      = (Inr [result_part fc out], w3)"
    using dispatch_one_call [OF one_call known tool, of "[]"] by simp
  from loadTools_again [OF load, of E w3] have again: "loadTools E a1 w3 = (Inr ts, a1, w3)"
    by auto
  have "processQuery E a query r savedContent w = processQuery_loop E a1 ?cc2 w3"
    using processQuery_loop_dispatch [OF load reply1 first1 calls disp]
    by (simp add: processQuery_def)
  also have "\<dots> = Some (Inr (resp2, ?cc2 @ [content cand2]), a1, w3 @ [GenerateContent ?req2])"
    using reply2 by (intro processQuery_loop_return [OF again _ first2 plain]) simp
  finally have "processQuery E a query r savedContent w
      = Some (Inr (resp2, savedContent @ [user_turn query r, content cand1,
                                          results_turn [result_part fc out], content cand2]),
              a1, w @ (evs1 @ [GenerateContent ?req1] @ evs2 @ [GenerateContent ?req2]))"
    using evs1(1) evs2 by simp
  moreover have "llm_requests (evs1 @ [GenerateContent ?req1] @ evs2 @ [GenerateContent ?req2]) = [?req1, ?req2]"
    "questions (evs1 @ [GenerateContent ?req1] @ evs2 @ [GenerateContent ?req2])
       = [confirm_prompt E (fc_name fc) (fc_args fc)]"
    "provider_calls (evs1 @ [GenerateContent ?req1] @ evs2 @ [GenerateContent ?req2])
       = (if success out then [(i, fc_name fc, fc_args fc)] else [])"
    using evs1(2) q2 by (simp_all add: quiet_def)
  ultimately show ?thesis
    by (intro exI [of _ "evs1 @ [GenerateContent ?req1] @ evs2 @ [GenerateContent ?req2]"]) simp
qed


section \<open>The concrete session, evaluated\<close>

lemma array_index_add [simp]: "array_index ''add'' = None"
  by (simp add: array_index_def is_digit_def)

lemma build_parameters_add:
  "build_parameters (tool_inputSchema add_tool) = def_parameters add_definition"
  by (simp add: build_parameters_def add_tool_def add_definition_def js_assign_def obj_set_def
      obj_get_def key_before_def array_index_def is_digit_def)

lemma add_tool_fields:
  "tool_name add_tool = ''add''" "tool_description add_tool = JStr ''Add two numbers''"
  by (simp_all add: add_tool_def)

lemma add_definition_eq:
  "\<lparr>def_name = ''add'', def_description = JStr ''Add two numbers'',
    def_parameters = def_parameters add_definition\<rparr> = add_definition"
  by (simp add: add_definition_def)

lemma demo_loadTools:
  "loadTools (demo_env requested answer) demo_agent []
     = (Inr [\<lparr>functionDeclarations = [add_definition]\<rparr>], demo_loaded, demo_loading)"
  by (simp add: loadTools_def demo_agent_def MCPAgent_def demo_client_def MCPClient_def
      getTool_def initiate_def demo_env_def register_tool_def tool_entry_def registry_assign_def
      registry_empty_def build_parameters_add obj_set_def declarations_def demo_loaded_def
      demo_registry_def demo_loading_def add_tool_fields add_definition_eq)

lemma demo_loadTools_again:
  "loadTools (demo_env requested answer) demo_loaded w
     = (Inr [\<lparr>functionDeclarations = [add_definition]\<rparr>], demo_loaded, w)"
  by (simp add: loadTools_def demo_loaded_def declarations_def demo_registry_def)

lemma array_index_lookup [simp]: "array_index ''lookup'' = None"
  by (simp add: array_index_def is_digit_def)



lemma two_loadTools:
  "fst (loadTools (catalogue_env add_catalogues) two_agent [])
     = Inr [\<lparr>functionDeclarations = [e_definition (tool_entry 1 vector_add_tool)]\<rparr>]"
  "map tools (mcpClients (fst (snd (loadTools (catalogue_env add_catalogues) two_agent []))))
     = [Some [add_tool], Some [vector_add_tool]]"
  by (simp_all add: loadTools_def two_agent_def MCPAgent_def demo_client_def vector_client_def
      MCPClient_def getTool_def initiate_def catalogue_env_def add_catalogues_def register_tool_def
      registry_assign_def registry_empty_def obj_set_def declarations_def add_tool_fields
      vector_add_tool_def [THEN arg_cong [of _ _ tool_name], simplified])

lemma model_reply_simps:
  "candidates (model_reply ps) = [\<lparr>content = model_turn ps\<rparr>]"
  "parts (model_turn ps) = ps"
  by (simp_all add: model_reply_def model_turn_def)

lemma call_part_simps:
  "function_calls [call_part n args] = [\<lparr>fc_name = n, fc_args = args\<rparr>]"
  "\<not> no_functionCall (call_part n args)"
  "no_functionCall (text_part s)"
  by (simp_all add: call_part_def text_part_def no_functionCall_def)

lemma demo_generateContent:
  "llm_requests w = [] \<Longrightarrow> generateContent (demo_env requested answer) req w = Inr (model_reply [call_part requested add_args])"
  "llm_requests w \<noteq> [] \<Longrightarrow> generateContent (demo_env requested answer) req w = Inr (model_reply [text_part ''4''])"
  by (simp_all add: demo_env_def)

lemma demo_loading_quiet: "llm_requests demo_loading = []"
  by (simp add: demo_loading_def)

lemma demo_functionClient:
  "functionClient (cachedTools demo_loaded) ''add'' = Inr 0"
  "functionClient (cachedTools demo_loaded) ''subtract'' = Inl TypeError"
  "registry_lookup demo_registry ''subtract'' = None"
  by (simp_all add: functionClient_def demo_loaded_def demo_registry_def registry_lookup_def)

lemma demo_callTool:
  "callTool (demo_env requested ''yes'') 0 ''add'' add_args w
     = (Inr \<lparr>success = True, response = JNum 4\<rparr>,
        w @ [Question (confirm_prompt (demo_env requested ''yes'') ''add'' add_args), CallTool 0 ''add'' add_args])"
  by (simp add: callTool_def demo_env_def Let_def)

lemma catalogue_loadTools:
  "loadTools (catalogue_env add_catalogues) demo_agent []
     = (Inr [\<lparr>functionDeclarations = [add_definition]\<rparr>], demo_loaded, demo_loading)"
  by (simp add: loadTools_def demo_agent_def MCPAgent_def demo_client_def MCPClient_def
      getTool_def initiate_def catalogue_env_def add_catalogues_def register_tool_def tool_entry_def
      registry_assign_def registry_empty_def build_parameters_add obj_set_def declarations_def
      demo_loaded_def demo_registry_def demo_loading_def add_tool_fields add_definition_eq)

lemma demo_dispatch:
  "dispatch_parts (demo_env ''add'' ''yes'') (cachedTools demo_loaded)
     (parts (content \<lparr>content = model_turn [call_part ''add'' add_args]\<rparr>)) []
     (demo_loading @ [GenerateContent (llm_request [user_turn ''what is 2+2'' ''user'']
                                        [\<lparr>functionDeclarations = [add_definition]\<rparr>])])
   = (Inr [response_part ''add'' (JNum 4)],
      demo_loading @
        [GenerateContent (llm_request [user_turn ''what is 2+2'' ''user'']
                            [\<lparr>functionDeclarations = [add_definition]\<rparr>]),
         Question (confirm_prompt (demo_env ''add'' ''yes'') ''add'' add_args),
         CallTool 0 ''add'' add_args])"
proof -
  let ?E = "demo_env ''add'' ''yes''"
  let ?w2 = "demo_loading @ [GenerateContent (llm_request [user_turn ''what is 2+2'' ''user'']
                                        [\<lparr>functionDeclarations = [add_definition]\<rparr>])]"
  have k: "functionClient (cachedTools demo_loaded) (fc_name \<lparr>fc_name = ''add'', fc_args = add_args\<rparr>) = Inr 0"
    by (simp add: demo_functionClient)
  have c: "callTool ?E 0 (fc_name \<lparr>fc_name = ''add'', fc_args = add_args\<rparr>)
      (fc_args \<lparr>fc_name = ''add'', fc_args = add_args\<rparr>) ?w2
      = (Inr \<lparr>success = True, response = JNum 4\<rparr>,
         ?w2 @ [Question (confirm_prompt ?E ''add'' add_args), CallTool 0 ''add'' add_args])"
    by (simp add: demo_callTool)
  have rp: "result_part \<lparr>fc_name = ''add'', fc_args = add_args\<rparr> \<lparr>success = True, response = JNum 4\<rparr>
      = response_part ''add'' (JNum 4)"
    by (simp add: result_part_def)
  show ?thesis
    using dispatch_one_call [OF call_part_simps(1) k c, of "[]"] rp
    by (simp add: model_reply_simps del: dispatch_parts.simps)
qed

lemma demo_processQuery:
  "processQuery (demo_env ''add'' ''yes'') demo_agent ''what is 2+2'' ''user'' [] []
     = Some (Inr (model_reply [text_part ''4''],
                  [user_turn ''what is 2+2'' ''user'',
                   model_turn [call_part ''add'' add_args],
                   results_turn [response_part ''add'' (JNum 4)],
                   model_turn [text_part ''4'']]),
             demo_loaded,
             demo_loading @
               [GenerateContent (llm_request [user_turn ''what is 2+2'' ''user'']
                                   [\<lparr>functionDeclarations = [add_definition]\<rparr>]),
                Question (confirm_prompt (demo_env ''add'' ''yes'') ''add'' add_args),
                CallTool 0 ''add'' add_args,
                GenerateContent (llm_request [user_turn ''what is 2+2'' ''user'',
                                              model_turn [call_part ''add'' add_args],
                                              results_turn [response_part ''add'' (JNum 4)]]
                                   [\<lparr>functionDeclarations = [add_definition]\<rparr>])])"
proof -
  let ?E = "demo_env ''add'' ''yes''"
  let ?ts = "[\<lparr>functionDeclarations = [add_definition]\<rparr>]"
  let ?cc1 = "[user_turn ''what is 2+2'' ''user'']"
  let ?w2 = "demo_loading @ [GenerateContent (llm_request ?cc1 ?ts)]"
  let ?w3 = "?w2 @ [Question (confirm_prompt ?E ''add'' add_args), CallTool 0 ''add'' add_args]"
  let ?cc2 = "?cc1 @ [model_turn [call_part ''add'' add_args], results_turn [response_part ''add'' (JNum 4)]]"
  have disp: "dispatch_parts ?E (cachedTools demo_loaded) (parts (content \<lparr>content = model_turn [call_part ''add'' add_args]\<rparr>)) [] ?w2
      = (Inr [response_part ''add'' (JNum 4)], ?w3)"
    using demo_dispatch by simp
  have "processQuery ?E demo_agent ''what is 2+2'' ''user'' [] [] = processQuery_loop ?E demo_loaded ?cc2 ?w3"
    unfolding processQuery_def
    using processQuery_loop_dispatch [OF demo_loadTools demo_generateContent(1) [OF demo_loading_quiet]
        model_reply_simps(1) _ disp]
    by (simp add: model_reply_simps call_part_simps)
  also have "\<dots> = Some (Inr (model_reply [text_part ''4''], ?cc2 @ [content \<lparr>content = model_turn [text_part ''4'']\<rparr>]),
        demo_loaded, ?w3 @ [GenerateContent (llm_request ?cc2 ?ts)])"
    by (rule processQuery_loop_return [OF demo_loadTools_again demo_generateContent(2) model_reply_simps(1)])
       (simp_all add: model_reply_simps call_part_simps)
  finally show ?thesis by simp
qed

lemma broken_loadTools:
  "loadTools broken_tool_env demo_agent []
     = (Inr [\<lparr>functionDeclarations = [add_definition]\<rparr>], demo_loaded, demo_loading)"
  by (simp add: loadTools_def demo_agent_def MCPAgent_def demo_client_def MCPClient_def
      getTool_def initiate_def broken_tool_env_def demo_env_def register_tool_def tool_entry_def
      registry_assign_def registry_empty_def build_parameters_add obj_set_def declarations_def
      demo_loaded_def demo_registry_def demo_loading_def add_tool_fields add_definition_eq)

lemma broken_callTool:
  "callTool broken_tool_env 0 ''add'' add_args w
     = (Inl (Rejected ''tool failed''),
        w @ [Question (confirm_prompt broken_tool_env ''add'' add_args), CallTool 0 ''add'' add_args])"
  by (simp add: callTool_def broken_tool_env_def demo_env_def Let_def)


section \<open>The confirmation gate\<close>

text \<open>
  Claim C1. For every handle, tool name and arguments, \<open>callTool\<close> first puts the
  confirmation question to the console. When the line read is anything but \<open>yes\<close>,
  the provider is not called and the outcome is \<open>{success: false, response: null}\<close>.
  When the line is \<open>yes\<close>, the provider is called exactly once, with that name and
  those arguments, and the value it returns is handed back with \<open>success: true\<close> (a
  failure of the provider is raised as it is).
\<close>

theorem callTool_confirmation_gate:
  assumes "rl_question E (confirm_prompt E toolName args) w = Inr line"
  shows "(\<exists>evs. snd (callTool E i toolName args w) = w @ Question (confirm_prompt E toolName args) # evs)
       \<and> provider_calls (snd (callTool E i toolName args w))
           = provider_calls w @ (if line = ''yes'' then [(i, toolName, args)] else [])
       \<and> fst (callTool E i toolName args w)
           = (if line = ''yes''
              then (case mcp_callTool E i toolName args (w @ [Question (confirm_prompt E toolName args)]) of
                      Inl e \<Rightarrow> Inl e
                    | Inr r \<Rightarrow> Inr \<lparr>success = True, response = r\<rparr>)
              else Inr \<lparr>success = False, response = JNull\<rparr>)"
  using assms by (auto simp: callTool_def Let_def split: sum.splits)

theorem callTool_confirmation_gate_witness:
  "rl_question (demo_env ''add'' ''yes'') (confirm_prompt (demo_env ''add'' ''yes'') ''add'' add_args) [] = Inr ''yes''
   \<and> provider_calls (snd (callTool (demo_env ''add'' ''yes'') 0 ''add'' add_args [])) = [(0, ''add'', add_args)]
   \<and> fst (callTool (demo_env ''add'' ''yes'') 0 ''add'' add_args []) = Inr \<lparr>success = True, response = JNum 4\<rparr>
   \<and> rl_question (demo_env ''add'' ''Yes'') (confirm_prompt (demo_env ''add'' ''Yes'') ''add'' add_args) [] = Inr ''Yes''
   \<and> provider_calls (snd (callTool (demo_env ''add'' ''Yes'') 0 ''add'' add_args [])) = []
   \<and> fst (callTool (demo_env ''add'' ''Yes'') 0 ''add'' add_args []) = Inr \<lparr>success = False, response = JNull\<rparr>"
proof -
  have y: "rl_question (demo_env ''add'' ''yes'') (confirm_prompt (demo_env ''add'' ''yes'') ''add'' add_args) [] = Inr ''yes''"
    by (simp add: demo_env_def)
  have n: "rl_question (demo_env ''add'' ''Yes'') (confirm_prompt (demo_env ''add'' ''Yes'') ''add'' add_args) [] = Inr ''Yes''"
    by (simp add: demo_env_def)
  have c: "mcp_callTool (demo_env ''add'' ''yes'') 0 ''add'' add_args w = Inr (JNum 4)" for w
    by (simp add: demo_env_def)
  show ?thesis
    using y n callTool_confirmation_gate [OF y, of 0] callTool_confirmation_gate [OF n, of 0]
    by (simp add: c)
qed


section \<open>A call for an unknown tool\<close>

text \<open>
  Claim C2 asks that a function call naming a tool absent from the registry yield a
  failed-tool-response part, the loop going on. The source reads
  \<open>this._cachedTools[part.functionCall.name].client\<close> unguarded. In the concrete session
  the registry holds \<open>add\<close> only and the model asks for \<open>subtract\<close>: \<open>processQuery\<close>
  raises \<open>TypeError\<close> right after the LLM round-trip. No history is returned, nothing
  is appended for the call, and the operator is not asked.
\<close>

theorem processQuery_unknown_tool_raises:
  "registry_lookup demo_registry ''subtract'' = None
   \<and> processQuery (demo_env ''subtract'' ''yes'') demo_agent ''what is 2-2'' ''user'' [] []
       = Some (Inl TypeError, demo_loaded,
               demo_loading @
                 [GenerateContent (llm_request [user_turn ''what is 2-2'' ''user'']
                                     [\<lparr>functionDeclarations = [add_definition]\<rparr>])])"
proof -
  let ?E = "demo_env ''subtract'' ''yes''"
  have reply: "generateContent ?E
      (llm_request ([] @ [user_turn ''what is 2-2'' ''user'']) [\<lparr>functionDeclarations = [add_definition]\<rparr>])
      demo_loading = Inr (model_reply [call_part ''subtract'' add_args])"
    by (simp add: demo_generateContent demo_loading_quiet)
  have call: "function_calls (parts (content \<lparr>content = model_turn [call_part ''subtract'' add_args]\<rparr>))
      = \<lparr>fc_name = ''subtract'', fc_args = add_args\<rparr> # []"
    by (simp add: model_reply_simps call_part_simps del: function_calls_simps)
  have cache: "cachedTools demo_loaded = Some demo_registry"
    by (simp add: demo_loaded_def)
  have unknown: "registry_lookup demo_registry (fc_name \<lparr>fc_name = ''subtract'', fc_args = add_args\<rparr>) = None"
    by (simp add: demo_functionClient)
  from processQuery_loop_unknown_tool [OF demo_loadTools reply model_reply_simps(1) call cache unknown]
  show ?thesis
    by (simp add: processQuery_def demo_functionClient)
qed


section \<open>Schema stripping\<close>

text \<open>
  What the callback of \<open>loadTools\<close> gets right: every entry of the registry was made
  from a tool \<open>t\<close> of the catalogue of the handle it names, under that tool's name; its
  \<open>parameters\<close> object has no own key \<open>additionalProperties\<close> and no own key
  \<open>$schema\<close>, and on every key other than these two and \<open>__proto__\<close> it agrees with
  \<open>t.inputSchema\<close>.
\<close>

lemma loadTools_entries_stripped:
  assumes fresh: "cachedTools a = None"
      and run: "loadTools E a w = (res, a', w')"
      and reg: "cachedTools a' = Some reg"
      and entry: "registry_lookup reg n = Some e"
  shows "\<exists>i ts t. i < length (mcpClients a') \<and> tools (mcpClients a' ! i) = Some ts \<and> t \<in> set ts
           \<and> tool_name t = n \<and> e = tool_entry i t
           \<and> \<not> obj_has (def_parameters (e_definition e)) ''additionalProperties''
           \<and> \<not> obj_has (def_parameters (e_definition e)) ''$schema''
           \<and> (\<forall>k. k \<notin> {''additionalProperties'', ''$schema'', ''__proto__''} \<longrightarrow>
                  map_of (def_parameters (e_definition e)) k = map_of (tool_inputSchema t) k)"
proof -
  from loadTools_fresh [OF fresh run] reg obtain res0 where
    lf: "loadTools_for E 0 (mcpClients a) registry_empty w = (res0, mcpClients a', reg, w')"
    by auto
  from registry_lookup_binding [OF entry] loadTools_for_bindings [OF lf]
  obtain i t ts where
    it: "i < length (mcpClients a')" "tools (mcpClients a' ! i) = Some ts" "t \<in> set ts"
        "n = tool_name t" "e = tool_entry i t"
    by auto
  have "def_parameters (e_definition e) = build_parameters (tool_inputSchema t)"
    using it(5) by (simp add: tool_entry_def)
  then have "\<not> obj_has (def_parameters (e_definition e)) ''additionalProperties''"
    "\<not> obj_has (def_parameters (e_definition e)) ''$schema''"
    "\<forall>k. k \<notin> {''additionalProperties'', ''$schema'', ''__proto__''} \<longrightarrow>
        map_of (def_parameters (e_definition e)) k = map_of (tool_inputSchema t) k"
    by (simp_all add: obj_has_def map_of_build_parameters)
  with it show ?thesis by blast
qed



section \<open>The registry cache\<close>

text \<open>
  Claim C4, as amended. Two consecutive calls of \<open>loadTools\<close> on the same agent: the
  second call has no effect at all (it queries no provider and leaves the agent as it
  is), over both calls every handle's \<open>listTools\<close> is queried at most once, and when the
  first call returns a result the second returns the same result.
\<close>

theorem loadTools_cache_idempotent:
  assumes first: "loadTools E a w = (res1, a1, w1)"
      and second: "loadTools E a1 w1 = (res2, a2, w2)"
  shows "w2 = w1 \<and> a2 = a1
       \<and> (\<exists>evs. w2 = w @ evs \<and> (\<forall>i. count_list (listTools_queries evs) i \<le> 1))
       \<and> (\<forall>d. res1 = Inr d \<longrightarrow> res2 = Inr d)"
proof -
  from loadTools_again [OF first, of E w1] second obtain r where
    r: "cachedTools a1 = Some r" "res2 = Inr (declarations r)" "a2 = a1" "w2 = w1"
       "\<forall>d. res1 = Inr d \<longrightarrow> d = declarations r"
    by auto
  from loadTools_trace [OF first] r show ?thesis
    by auto
qed

theorem loadTools_cache_idempotent_witness:
  "loadTools (demo_env ''add'' ''yes'') demo_agent []
     = (Inr [\<lparr>functionDeclarations = [add_definition]\<rparr>], demo_loaded, demo_loading)
   \<and> loadTools (demo_env ''add'' ''yes'') demo_loaded demo_loading
     = (Inr [\<lparr>functionDeclarations = [add_definition]\<rparr>], demo_loaded, demo_loading)
   \<and> listTools_queries demo_loading = [0]
   \<and> (\<exists>evs. demo_loading = [] @ evs \<and> (\<forall>i. count_list (listTools_queries evs) i \<le> 1))"
  using loadTools_cache_idempotent [OF demo_loadTools demo_loadTools_again]
  by (simp add: demo_loadTools demo_loadTools_again demo_loading_def)

text \<open>
  The claim as first stated has no condition on the first call. \<open>loadTools\<close> sets
  \<open>_cachedTools\<close> to \<open>{}\<close> before it queries the handles, and the guard
  \<open>this._cachedTools == null\<close> is all a later call tests. With a second provider that
  fails to list its tools, before and after, the first call raises and the second
  returns the declarations of the first provider: the two calls do not end alike.
\<close>

theorem loadTools_after_failure_returns:
  "mcp_listTools half_env 1 [] = Inl (Rejected ''connection closed'')
   \<and> fst (loadTools half_env two_agent []) = Inl (Rejected ''connection closed'')
   \<and> fst (loadTools half_env (fst (snd (loadTools half_env two_agent [])))
             (snd (snd (loadTools half_env two_agent []))))
       = Inr [\<lparr>functionDeclarations = [add_definition]\<rparr>]
   \<and> snd (snd (loadTools half_env (fst (snd (loadTools half_env two_agent [])))
                  (snd (snd (loadTools half_env two_agent [])))))
       = snd (snd (loadTools half_env two_agent []))"
proof -
  have run: "loadTools half_env two_agent []
      = (Inl (Rejected ''connection closed''),
         \<lparr>mcpClients = [demo_client\<lparr>tools := Some [add_tool], initialised := True\<rparr>,
                        vector_client\<lparr>initialised := True\<rparr>],
          cachedTools = Some demo_registry\<rparr>,
         [Connect 0 (transport demo_client), ListTools 0,
          Connect 1 (transport vector_client), ListTools 1])"
    by (simp add: loadTools_def two_agent_def MCPAgent_def demo_client_def vector_client_def
        MCPClient_def getTool_def initiate_def half_env_def catalogue_env_def register_tool_def
        tool_entry_def registry_assign_def registry_empty_def build_parameters_add obj_set_def
        demo_registry_def add_tool_fields add_definition_eq)
  show ?thesis
    by (simp add: run)
       (simp add: loadTools_def declarations_def demo_registry_def half_env_def)
qed


section \<open>One tool call, then the answer\<close>

text \<open>
  Claim C5. The tools load; the first reply of the LLM carries exactly one function
  call \<open>fc\<close>, for a registered tool, and \<open>callTool\<close> returns for it (confirmed and
  answered by the provider, or cancelled); the LLM's reply to the history extended by
  that result has no function call. Then \<open>processQuery\<close> returns this second reply,
  and the history it returns is the saved one followed by: the user turn, the model
  turn with the call, a turn with role \<open>user\<close> whose one part is a function response
  named after the call, and the final model turn. In what it did there are exactly
  two LLM round-trips and exactly one tool invocation: one confirmation prompt, and
  one provider call when the operator confirmed (none when the call was cancelled).
\<close>

theorem processQuery_call_then_text:
  assumes user: "user = \<lparr>parts = [\<lparr>p_text = Some query, p_functionCall = Absent, p_functionResponse = None\<rparr>],
                         role = r\<rparr>"
      and load: "loadTools E a w = (Inr ts, a1, w1)"
      and req1: "req1 = \<lparr>model = ''gemini-2.0-flash'', contents = savedContent @ [user], config_tools = ts\<rparr>"
      and reply1: "generateContent E req1 w1 = Inr resp1"
      and first1: "candidates resp1 = cand1 # rest1"
      and one_call: "function_calls (parts (content cand1)) = [fc]"
      and known: "functionClient (cachedTools a1) (fc_name fc) = Inr i"
      and tool: "callTool E i (fc_name fc) (fc_args fc) (w1 @ [GenerateContent req1]) = (Inr out, w3)"
      and result: "result =
                     \<lparr>parts =
                        [\<lparr>p_text = None, p_functionCall = Absent,
                          p_functionResponse =
                            Some \<lparr>fr_name = fc_name fc,
                                  fr_response =
                                    (if success out then response out
                                     else JObj [(''content'',
                                                 JObj [(''type'', JStr ''text''),
                                                       (''text'', JStr ''Tool/Function call failed or was cancelled.'')])])\<rparr>\<rparr>],
                      role = ''user''\<rparr>"
      and req2: "req2 = \<lparr>model = ''gemini-2.0-flash'',
                         contents = savedContent @ [user, content cand1, result], config_tools = ts\<rparr>"
      and reply2: "generateContent E req2 w3 = Inr resp2"
      and first2: "candidates resp2 = cand2 # rest2"
      and plain: "\<forall>p \<in> set (parts (content cand2)). p_functionCall p = Absent"
  shows "\<exists>evs. processQuery E a query r savedContent w
            = Some (Inr (resp2, savedContent @ [user, content cand1, result, content cand2]), a1, w @ evs)
         \<and> llm_requests evs = [req1, req2]
         \<and> questions evs = [confirm_prompt E (fc_name fc) (fc_args fc)]
         \<and> provider_calls evs = (if success out then [(i, fc_name fc, fc_args fc)] else [])"
proof -
  have u: "user = user_turn query r"
    by (simp add: user user_turn_def text_part_def)
  have r1: "req1 = llm_request (savedContent @ [user_turn query r]) ts"
    by (simp add: req1 u llm_request_def)
  have res: "result = results_turn [result_part fc out]"
    by (simp add: result results_turn_def result_part_def response_part_def failed_payload_def)
  have r2: "req2 = llm_request (savedContent @ [user_turn query r, content cand1,
                                                 results_turn [result_part fc out]]) ts"
    by (simp add: req2 u res llm_request_def)
  have p: "list_all no_functionCall (parts (content cand2))"
    using plain by (simp add: list_all_iff no_functionCall_def)
  from processQuery_call_then_text_run [OF load reply1 [unfolded r1] first1 one_call known
      tool [unfolded r1] reply2 [unfolded r2] first2 p]
  show ?thesis
    unfolding u r1 res r2 .
qed

theorem processQuery_call_then_text_witness:
  "function_calls (parts (model_turn [call_part ''add'' add_args])) = [\<lparr>fc_name = ''add'', fc_args = add_args\<rparr>]
   \<and> functionClient (cachedTools demo_loaded) ''add'' = Inr 0
   \<and> (\<exists>evs. processQuery (demo_env ''add'' ''yes'') demo_agent ''what is 2+2'' ''user'' [] []
            = Some (Inr (model_reply [text_part ''4''],
                         [\<lparr>parts = [\<lparr>p_text = Some ''what is 2+2'', p_functionCall = Absent,
                                     p_functionResponse = None\<rparr>],
                           role = ''user''\<rparr>,
                          model_turn [call_part ''add'' add_args],
                          \<lparr>parts = [\<lparr>p_text = None, p_functionCall = Absent,
                                     p_functionResponse = Some \<lparr>fr_name = ''add'', fr_response = JNum 4\<rparr>\<rparr>],
                           role = ''user''\<rparr>,
                          model_turn [text_part ''4'']]),
                    demo_loaded, evs)
          \<and> length (llm_requests evs) = 2
          \<and> questions evs = [confirm_prompt (demo_env ''add'' ''yes'') ''add'' add_args]
          \<and> provider_calls evs = [(0, ''add'', add_args)])"
proof -
  let ?E = "demo_env ''add'' ''yes''"
  let ?fc = "\<lparr>fc_name = ''add'', fc_args = add_args\<rparr>"
  let ?out = "\<lparr>success = True, response = JNum 4\<rparr>"
  let ?ts = "[\<lparr>functionDeclarations = [add_definition]\<rparr>]"
  let ?user = "\<lparr>parts = [\<lparr>p_text = Some ''what is 2+2'', p_functionCall = Absent, p_functionResponse = None\<rparr>],
                role = ''user''\<rparr>"
  let ?req1 = "\<lparr>model = ''gemini-2.0-flash'', contents = [] @ [?user], config_tools = ?ts\<rparr>"
  let ?w2 = "demo_loading @ [GenerateContent ?req1]"
  let ?w3 = "?w2 @ [Question (confirm_prompt ?E ''add'' add_args), CallTool 0 ''add'' add_args]"
  let ?result = "\<lparr>parts =
                        [\<lparr>p_text = None, p_functionCall = Absent,
                          p_functionResponse =
                            Some \<lparr>fr_name = fc_name ?fc,
                                  fr_response =
                                    (if success ?out then response ?out
                                     else JObj [(''content'',
                                                 JObj [(''type'', JStr ''text''),
                                                       (''text'', JStr ''Tool/Function call failed or was cancelled.'')])])\<rparr>\<rparr>],
                      role = ''user''\<rparr>"
  let ?cand1 = "\<lparr>content = model_turn [call_part ''add'' add_args]\<rparr>"
  let ?cand2 = "\<lparr>content = model_turn [text_part ''4'']\<rparr>"
  let ?req2 = "\<lparr>model = ''gemini-2.0-flash'',
                contents = [] @ [?user, content ?cand1, ?result], config_tools = ?ts\<rparr>"
  have reply1: "generateContent ?E ?req1 demo_loading = Inr (model_reply [call_part ''add'' add_args])"
    by (simp add: demo_generateContent demo_loading_quiet)
  have one: "function_calls (parts (content ?cand1)) = [?fc]"
    by (simp add: model_reply_simps call_part_simps del: function_calls_simps)
  have known: "functionClient (cachedTools demo_loaded) (fc_name ?fc) = Inr 0"
    by (simp add: demo_functionClient)
  have tool: "callTool ?E 0 (fc_name ?fc) (fc_args ?fc) ?w2 = (Inr ?out, ?w3)"
    by (simp add: demo_callTool)
  have reply2: "generateContent ?E ?req2 ?w3 = Inr (model_reply [text_part ''4''])"
    by (simp add: demo_generateContent)
  have plain: "\<forall>p \<in> set (parts (content ?cand2)). p_functionCall p = Absent"
    by (simp add: model_reply_simps text_part_def)
  from processQuery_call_then_text [OF refl demo_loadTools refl reply1 model_reply_simps(1) one known tool
      refl refl reply2 model_reply_simps(1) plain]
  obtain evs where
    "processQuery ?E demo_agent ''what is 2+2'' ''user'' [] []
       = Some (Inr (model_reply [text_part ''4''],
                    [?user, model_turn [call_part ''add'' add_args],
                     \<lparr>parts = [\<lparr>p_text = None, p_functionCall = Absent,
                                p_functionResponse = Some \<lparr>fr_name = ''add'', fr_response = JNum 4\<rparr>\<rparr>],
                      role = ''user''\<rparr>,
                     model_turn [text_part ''4'']]),
               demo_loaded, evs)"
    "length (llm_requests evs) = 2"
    "questions evs = [confirm_prompt ?E ''add'' add_args]"
    "provider_calls evs = [(0, ''add'', add_args)]"
    by auto
  moreover have "function_calls (parts (model_turn [call_part ''add'' add_args])) = [?fc]"
    using one by simp
  ultimately show ?thesis
    using demo_functionClient(1) by blast
qed


section \<open>A query answered at once\<close>

text \<open>
  Claim C6. If the tools load and the first reply of the LLM has no part with a
  \<open>functionCall\<close> key, then \<open>processQuery\<close> returns that reply, with the query's turn
  and the reply appended to the history; in what it did there is exactly one LLM
  round-trip, no confirmation prompt and no provider call.
\<close>

theorem processQuery_text_reply_ends:
  assumes load: "loadTools E a w = (Inr ts, a1, w1)"
      and reply: "generateContent E (llm_request (savedContent @ [user_turn query r]) ts) w1 = Inr resp"
      and first: "candidates resp = cand # rest"
      and plain: "list_all no_functionCall (parts (content cand))"
  shows "\<exists>evs. processQuery E a query r savedContent w
            = Some (Inr (resp, savedContent @ [user_turn query r, content cand]), a1, w @ evs)
         \<and> llm_requests evs = [llm_request (savedContent @ [user_turn query r]) ts]
         \<and> questions evs = [] \<and> provider_calls evs = []"
proof -
  from loadTools_trace [OF load] obtain evs where evs: "w1 = w @ evs" "quiet evs"
    by blast
  let ?req = "llm_request (savedContent @ [user_turn query r]) ts"
  have "processQuery E a query r savedContent w
      = Some (Inr (resp, savedContent @ [user_turn query r, content cand]), a1, w @ (evs @ [GenerateContent ?req]))"
    using processQuery_loop_return [OF load reply first plain] evs(1)
    by (simp add: processQuery_def)
  moreover have "llm_requests (evs @ [GenerateContent ?req]) = [?req]"
    "questions (evs @ [GenerateContent ?req]) = []" "provider_calls (evs @ [GenerateContent ?req]) = []"
    using evs(2) by (simp_all add: quiet_def)
  ultimately show ?thesis by blast
qed

theorem processQuery_text_reply_ends_witness:
  "loadTools (catalogue_env add_catalogues) demo_agent []
     = (Inr [\<lparr>functionDeclarations = [add_definition]\<rparr>], demo_loaded, demo_loading)
   \<and> generateContent (catalogue_env add_catalogues)
        (llm_request ([] @ [user_turn ''hello'' ''user'']) [\<lparr>functionDeclarations = [add_definition]\<rparr>])
        demo_loading = Inr (model_reply [text_part ''ok''])
   \<and> list_all no_functionCall [text_part ''ok'']
   \<and> (\<exists>evs. processQuery (catalogue_env add_catalogues) demo_agent ''hello'' ''user'' [] []
            = Some (Inr (model_reply [text_part ''ok''],
                         [user_turn ''hello'' ''user'', model_turn [text_part ''ok'']]),
                    demo_loaded, evs)
          \<and> length (llm_requests evs) = 1 \<and> questions evs = [] \<and> provider_calls evs = [])"
proof -
  let ?E = "catalogue_env add_catalogues"
  have reply: "generateContent ?E
      (llm_request ([] @ [user_turn ''hello'' ''user'']) [\<lparr>functionDeclarations = [add_definition]\<rparr>])
      demo_loading = Inr (model_reply [text_part ''ok''])"
    by (simp add: catalogue_env_def)
  have plain: "list_all no_functionCall (parts (content \<lparr>content = model_turn [text_part ''ok'']\<rparr>))"
    by (simp add: model_reply_simps call_part_simps)
  from processQuery_text_reply_ends [OF catalogue_loadTools reply model_reply_simps(1) plain]
  obtain evs where
    "processQuery ?E demo_agent ''hello'' ''user'' [] []
       = Some (Inr (model_reply [text_part ''ok''],
                    [user_turn ''hello'' ''user'', model_turn [text_part ''ok'']]),
               demo_loaded, evs)"
    "length (llm_requests evs) = 1" "questions evs = []" "provider_calls evs = []"
    by auto
  with catalogue_loadTools reply plain show ?thesis
    by (auto simp: model_reply_simps)
qed


section \<open>Dispatching the calls of a reply\<close>

text \<open>
  What the loop does in a round in which the reply has a function call and every
  \<open>callTool\<close> returns an outcome. The calls are run one after the other in the order
  of the reply's parts: there is a chain of worlds, from the one right after the LLM
  round-trip to the one the round ends in, in which the \<open>k\<close>-th step is \<open>callTool\<close>
  for the \<open>k\<close>-th call on the handle the registry gives for its name. The results are
  collected in the same order, one part per call, into one turn with role \<open>user\<close>;
  the loop goes on with the history extended by the reply and that turn, and every
  history the query returns starts with it.
\<close>

lemma processQuery_loop_dispatch_in_order:
  assumes load: "loadTools E a w = (Inr ts, a1, w1)"
      and reply: "generateContent E (llm_request cc ts) w1 = Inr resp"
      and first: "candidates resp = cand # rest"
      and calls: "\<not> list_all no_functionCall (parts (content cand))"
      and finished: "dispatch_parts E (cachedTools a1) (parts (content cand)) []
                   (w1 @ [GenerateContent (llm_request cc ts)]) = (Inr frp, w3)"
  shows "processQuery_loop E a cc w = processQuery_loop E a1 (cc @ [content cand, results_turn frp]) w3
       \<and> role (results_turn frp) = ''user''
       \<and> (\<exists>outs ws.
             length outs = length (function_calls (parts (content cand)))
           \<and> length ws = Suc (length (function_calls (parts (content cand))))
           \<and> hd ws = w1 @ [GenerateContent (llm_request cc ts)] \<and> last ws = w3
           \<and> (\<forall>k < length (function_calls (parts (content cand))).
                 \<exists>i. functionClient (cachedTools a1) (fc_name (function_calls (parts (content cand)) ! k)) = Inr i
                    \<and> callTool E i (fc_name (function_calls (parts (content cand)) ! k))
                         (fc_args (function_calls (parts (content cand)) ! k)) (ws ! k)
                        = (Inr (outs ! k), ws ! Suc k))
           \<and> parts (results_turn frp)
               = map (\<lambda>(fc, out). result_part fc out) (zip (function_calls (parts (content cand))) outs))
       \<and> (\<forall>y. processQuery_loop E a cc w = Some y \<longrightarrow>
             (case y of (Inl e, a', w') \<Rightarrow> True
              | (Inr (resp', history), a', w') \<Rightarrow> prefix (cc @ [content cand, results_turn frp]) history))"
proof -
  have step: "processQuery_loop E a cc w = processQuery_loop E a1 (cc @ [content cand, results_turn frp]) w3"
    by (rule processQuery_loop_dispatch [OF load reply first calls finished])
  have "case y of (Inl e, a', w') \<Rightarrow> True
        | (Inr (resp', history), a', w') \<Rightarrow> prefix (cc @ [content cand, results_turn frp]) history"
    if "processQuery_loop E a cc w = Some y" for y
    using processQuery_loop_returned [of E a1 "cc @ [content cand, results_turn frp]" w3 y] that step
    by (auto split: prod.splits sum.splits)
  with step dispatch_chain [OF finished] show ?thesis
    by (simp add: results_turn_def)
qed

text \<open>
  Claim C7 asks, beyond that order, that a failed call be reported like a cancelled
  one, by a function-response part with the fixed text, collected into the turn. The
  source has that part, and its text names the failure, but \<open>callTool\<close> returns
  \<open>success: false\<close> only for a cancelled confirmation: a provider call that fails is
  raised out of \<open>callTool\<close> and out of \<open>processQuery\<close>. In the concrete session the
  operator confirms and the provider's call fails: \<open>processQuery\<close> raises that failure,
  no part is collected and no turn is appended.
\<close>

theorem processQuery_tool_failure_raises:
  "rl_question broken_tool_env (confirm_prompt broken_tool_env ''add'' add_args)
     (demo_loading @ [GenerateContent (llm_request [user_turn ''what is 2+2'' ''user'']
                                        [\<lparr>functionDeclarations = [add_definition]\<rparr>])])
     = Inr ''yes''
   \<and> mcp_callTool broken_tool_env 0 ''add'' add_args
       (demo_loading @ [GenerateContent (llm_request [user_turn ''what is 2+2'' ''user'']
                                          [\<lparr>functionDeclarations = [add_definition]\<rparr>]),
                        Question (confirm_prompt broken_tool_env ''add'' add_args)])
     = Inl (Rejected ''tool failed'')
   \<and> processQuery broken_tool_env demo_agent ''what is 2+2'' ''user'' [] []
       = Some (Inl (Rejected ''tool failed''), demo_loaded,
               demo_loading @
                 [GenerateContent (llm_request [user_turn ''what is 2+2'' ''user'']
                                     [\<lparr>functionDeclarations = [add_definition]\<rparr>]),
                  Question (confirm_prompt broken_tool_env ''add'' add_args),
                  CallTool 0 ''add'' add_args])"
proof -
  let ?E = "broken_tool_env"
  let ?req = "llm_request ([] @ [user_turn ''what is 2+2'' ''user'']) [\<lparr>functionDeclarations = [add_definition]\<rparr>]"
  have reply: "generateContent ?E ?req demo_loading = Inr (model_reply [call_part ''add'' add_args])"
    by (simp add: broken_tool_env_def demo_env_def demo_loading_quiet)
  have calls: "\<not> list_all no_functionCall (parts (content \<lparr>content = model_turn [call_part ''add'' add_args]\<rparr>))"
    by (simp add: model_reply_simps call_part_simps)
  have disp: "dispatch_parts ?E (cachedTools demo_loaded)
      (parts (content \<lparr>content = model_turn [call_part ''add'' add_args]\<rparr>)) []
      (demo_loading @ [GenerateContent ?req])
      = (Inl (Rejected ''tool failed''),
         (demo_loading @ [GenerateContent ?req])
           @ [Question (confirm_prompt ?E ''add'' add_args), CallTool 0 ''add'' add_args])"
    by (simp add: model_reply_simps call_part_def demo_functionClient broken_callTool)
  from processQuery_loop_fault [OF broken_loadTools reply model_reply_simps(1) calls disp]
  show ?thesis
    by (simp add: processQuery_def) (simp add: broken_tool_env_def demo_env_def)
qed


section \<open>Name collisions\<close>

text \<open>
  Claim C8. Let the providers answer \<open>connect\<close> and \<open>listTools\<close> without failure, and
  let \<open>loadTools\<close> build the registry. If the handles at positions \<open>i < j\<close> both have a
  tool named \<open>n\<close> in their catalogues, and no handle after \<open>j\<close> has one, then
  \<open>loadTools\<close> returns normally and \<open>this._cachedTools[n]\<close> is an entry owned by handle
  \<open>j\<close>, not \<open>i\<close>, whose definition is that of \<open>t\<close>, the last tool named \<open>n\<close> of handle
  \<open>j\<close>: the name \<open>n\<close>, the description of \<open>t\<close>, and as parameters the keys of
  \<open>t.inputSchema\<close> that the callback copies, with their values.
\<close>

theorem loadTools_last_registration_wins:
  assumes fresh: "cachedTools a = None"
      and connect_ok: "\<And>k t tr. mcp_connect E k t tr = None"
      and list_ok: "\<And>k tr. \<exists>ts. mcp_listTools E k tr = Inr ts"
      and run: "loadTools E a w = (res, a', w')"
      and ij: "i < j" "j < length (mcpClients a')"
      and first: "tools (mcpClients a' ! i) = Some tsi" "n \<in> tool_name ` set tsi"
      and second: "tools (mcpClients a' ! j) = Some tsj" "n \<in> tool_name ` set tsj"
      and later: "\<And>k ts. j < k \<Longrightarrow> k < length (mcpClients a') \<Longrightarrow> tools (mcpClients a' ! k) = Some ts
                    \<Longrightarrow> n \<notin> tool_name ` set ts"
      and winner: "t = last (filter (\<lambda>t. tool_name t = n) tsj)"
  shows "(\<exists>d. res = Inr d)
       \<and> (\<exists>reg e. cachedTools a' = Some reg \<and> registry_lookup reg n = Some e
              \<and> e_client e = j \<and> e_client e \<noteq> i
              \<and> def_name (e_definition e) = n
              \<and> def_description (e_definition e) = tool_description t
              \<and> (\<forall>k. map_of (def_parameters (e_definition e)) k
                       = (if k \<in> {''additionalProperties'', ''$schema'', ''__proto__''} then None
                          else map_of (tool_inputSchema t) k)))"
proof -
  have "(\<exists>d. res = Inr d)
       \<and> (\<exists>reg. cachedTools a' = Some reg
              \<and> registry_lookup reg n = Some (tool_entry j (last (filter (\<lambda>t. tool_name t = n) tsj)))
              \<and> (\<forall>t. registry_lookup reg n \<noteq> Some (tool_entry i t)))"
  proof (rule loadTools_last_entry [OF fresh connect_ok list_ok run ij first second])
    fix k ts
    assume "j < k" "k < length (mcpClients a')" "tools (mcpClients a' ! k) = Some ts"
    then show "n \<notin> tool_name ` set ts" by (rule later)
  qed
  then obtain d reg where d: "res = Inr d" and reg: "cachedTools a' = Some reg"
    and e: "registry_lookup reg n = Some (tool_entry j t)"
    unfolding winner by blast
  from second(2) have "filter (\<lambda>t. tool_name t = n) tsj \<noteq> []"
    by (auto simp: filter_empty_conv)
  then have "t \<in> set (filter (\<lambda>t. tool_name t = n) tsj)"
    unfolding winner by (rule last_in_set)
  then have name: "tool_name t = n" by simp
  have "e_client (tool_entry j t) = j" "e_client (tool_entry j t) \<noteq> i"
    "def_name (e_definition (tool_entry j t)) = n"
    "def_description (e_definition (tool_entry j t)) = tool_description t"
    "\<forall>k. map_of (def_parameters (e_definition (tool_entry j t))) k
        = (if k \<in> {''additionalProperties'', ''$schema'', ''__proto__''} then None
           else map_of (tool_inputSchema t) k)"
    using ij(1) name by (simp_all add: tool_entry_def map_of_build_parameters)
  with d reg e show ?thesis by blast
qed

theorem loadTools_last_registration_wins_witness:
  "cachedTools two_agent = None
   \<and> (0::nat) < 1
   \<and> tools (mcpClients (fst (snd (loadTools (catalogue_env add_catalogues) two_agent []))) ! 0) = Some [add_tool]
   \<and> tools (mcpClients (fst (snd (loadTools (catalogue_env add_catalogues) two_agent []))) ! 1) = Some [vector_add_tool]
   \<and> tool_name add_tool = ''add'' \<and> tool_name vector_add_tool = ''add''
   \<and> tool_description add_tool = JStr ''Add two numbers''
   \<and> (\<exists>d. fst (loadTools (catalogue_env add_catalogues) two_agent []) = Inr d)
   \<and> (\<exists>reg e. cachedTools (fst (snd (loadTools (catalogue_env add_catalogues) two_agent []))) = Some reg
          \<and> registry_lookup reg ''add'' = Some e
          \<and> e_client e = 1
          \<and> def_name (e_definition e) = ''add''
          \<and> def_description (e_definition e) = JStr ''Add two vectors''
          \<and> map_of (def_parameters (e_definition e)) ''type'' = Some (JStr ''object''))"
proof -
  let ?E = "catalogue_env add_catalogues"
  let ?X = "loadTools ?E two_agent []"
  let ?a = "fst (snd ?X)"
  have fresh: "cachedTools two_agent = None"
    by (simp add: two_agent_def MCPAgent_def)
  have run: "?X = (fst ?X, ?a, snd (snd ?X))" by simp
  have len: "length (mcpClients ?a) = 2"
    using two_loadTools(2) [THEN arg_cong [of _ _ length]] by simp
  have t0: "tools (mcpClients ?a ! 0) = Some [add_tool]"
    using two_loadTools(2) len by (metis (no_types, lifting) nth_map nth_Cons_0 zero_less_numeral)
  have t1: "tools (mcpClients ?a ! 1) = Some [vector_add_tool]"
    using two_loadTools(2) len
    by (metis (no_types, lifting) nth_map nth_Cons_0 nth_Cons_Suc One_nat_def one_less_numeral_iff semiring_norm(76))
  have names: "tool_name add_tool = ''add''" "tool_name vector_add_tool = ''add''"
    "tool_description add_tool = JStr ''Add two numbers''"
    by (simp_all add: add_tool_def vector_add_tool_def)
  have winner: "vector_add_tool = last (filter (\<lambda>t. tool_name t = ''add'') [vector_add_tool])"
    using names by simp
  have "(\<exists>d. fst ?X = Inr d)
      \<and> (\<exists>reg e. cachedTools ?a = Some reg \<and> registry_lookup reg ''add'' = Some e
              \<and> e_client e = 1 \<and> e_client e \<noteq> 0
              \<and> def_name (e_definition e) = ''add''
              \<and> def_description (e_definition e) = tool_description vector_add_tool
              \<and> (\<forall>k. map_of (def_parameters (e_definition e)) k
                       = (if k \<in> {''additionalProperties'', ''$schema'', ''__proto__''} then None
                          else map_of (tool_inputSchema vector_add_tool) k)))"
  proof (rule loadTools_last_registration_wins [OF fresh _ _ run _ _ t0 _ t1 _ _ winner])
    show "mcp_connect ?E k t tr = None" for k t tr by (simp add: catalogue_env_def)
    show "\<exists>ts. mcp_listTools ?E k tr = Inr ts" for k tr by (simp add: catalogue_env_def)
    show "(0::nat) < 1" by simp
    show "1 < length (mcpClients ?a)" using len by simp
    show "''add'' \<in> tool_name ` set [add_tool]" using names by simp
    show "''add'' \<in> tool_name ` set [vector_add_tool]" using names by simp
    show "''add'' \<notin> tool_name ` set ts" if "1 < k" "k < length (mcpClients ?a)" for k ts
      using that len by simp
  qed
  then obtain d reg e where
    "fst ?X = Inr d" "cachedTools ?a = Some reg" "registry_lookup reg ''add'' = Some e"
    "e_client e = 1" "def_name (e_definition e) = ''add''"
    "def_description (e_definition e) = tool_description vector_add_tool"
    "\<forall>k. map_of (def_parameters (e_definition e)) k
        = (if k \<in> {''additionalProperties'', ''$schema'', ''__proto__''} then None
           else map_of (tool_inputSchema vector_add_tool) k)"
    by blast
  moreover from this(7) have "map_of (def_parameters (e_definition e)) ''type'' = Some (JStr ''object'')"
    by (simp add: vector_add_tool_def)
  moreover have "tool_description vector_add_tool = JStr ''Add two vectors''"
    by (simp add: vector_add_tool_def)
  ultimately show ?thesis
    using fresh t0 t1 names by auto
qed


section \<open>Unknown transport types\<close>

text \<open>
  Claim C9, as amended. If some descriptor of the configuration has a \<open>url\<close> key and a
  \<open>type\<close> that is neither \<open>"http"\<close> nor \<open>"sse"\<close>, then \<open>getMCPClients\<close> raises
  \<open>Unknown transport type\<close> and builds no client list: the failure comes at
  construction, before any handle is used.
\<close>

theorem getMCPClients_unknown_type_fails:
  assumes "(name, config) \<in> set mcpConfig" and "obj_has config ''url''"
      and "obj_get config ''type'' \<noteq> JStr ''http''" and "obj_get config ''type'' \<noteq> JStr ''sse''"
  shows "\<exists>t. t \<noteq> JStr ''http'' \<and> t \<noteq> JStr ''sse'' \<and> getMCPClients rnd mcpConfig = Inl (UnknownTransportType t)"
  using getMCPClients_from_error [of "(name, config)" mcpConfig rnd 0] assms
  by (simp add: getMCPClients_def)

theorem getMCPClients_unknown_type_fails_witness:
  "(''events'', [(''type'', JStr ''websocket''), (''url'', JStr ''ws://localhost:9000'')]) \<in> set mixed_config
   \<and> obj_has [(''type'', JStr ''websocket''), (''url'', JStr ''ws://localhost:9000'')] ''url''
   \<and> obj_get [(''type'', JStr ''websocket''), (''url'', JStr ''ws://localhost:9000'')] ''type'' = JStr ''websocket''
   \<and> getMCPClients demo_rnd mixed_config = Inl (UnknownTransportType (JStr ''websocket''))"
proof -
  let ?c = "[(''type'', JStr ''websocket''), (''url'', JStr ''ws://localhost:9000'')]"
  have h: "(''events'', ?c) \<in> set mixed_config" "obj_has ?c ''url''"
    "obj_get ?c ''type'' \<noteq> JStr ''http''" "obj_get ?c ''type'' \<noteq> JStr ''sse''"
    "obj_get ?c ''type'' = JStr ''websocket''"
    by (simp_all add: mixed_config_def obj_has_def obj_get_def)
  have ev: "getMCPClients demo_rnd mixed_config = Inl (UnknownTransportType (JStr ''websocket''))"
    by (simp add: getMCPClients_def mixed_config_def client_of_entry_def obj_has_def obj_get_def)
  from getMCPClients_unknown_type_fails [OF h(1-4), of demo_rnd] h ev show ?thesis
    by simp
qed

text \<open>
  The claim as first stated asks this of every descriptor that is not of the form
  \<open>{command, args}\<close>. The source takes every descriptor without a \<open>url\<close> key for a
  local-process descriptor and never looks at its \<open>type\<close>: a descriptor with an unknown
  type and no \<open>url\<close>, \<open>command\<close> or \<open>args\<close> yields a handle whose local process has
  no command, and nothing is raised at construction.
\<close>

theorem getMCPClients_accepts_unknown_type:
  "obj_get websocket_descriptor ''type'' = JStr ''websocket''
   \<and> \<not> obj_has websocket_descriptor ''command'' \<and> \<not> obj_has websocket_descriptor ''args''
   \<and> getMCPClients demo_rnd [(''events'', websocket_descriptor)]
       = Inr [\<lparr>mcp_name = ''events'', tools = None, initialised = False,
               transport = StdioClientTransport JUndefined JUndefined\<rparr>]"
  by (simp add: getMCPClients_def client_of_entry_def websocket_descriptor_def obj_has_def
      obj_get_def MCPClient_def)


section \<open>The reply that ends a query\<close>

text \<open>
  Claim C10. Whenever \<open>processQuery\<close> returns normally, the response it returns has a
  first candidate, that candidate's content is the last turn of the returned history,
  and no part of it has a \<open>functionCall\<close> key.
\<close>

theorem processQuery_returns_text_reply:
  assumes "processQuery E a query r savedContent w = Some (Inr (resp, history), a', w')"
  shows "\<exists>cand rest. candidates resp = cand # rest
           \<and> history \<noteq> [] \<and> last history = content cand
           \<and> (\<forall>p \<in> set (parts (content cand)). p_functionCall p = Absent)"
  using processQuery_loop_returned [OF assms [unfolded processQuery_def]]
  by (auto simp: list_all_iff no_functionCall_def)

theorem processQuery_returns_text_reply_witness:
  "processQuery (demo_env ''add'' ''yes'') demo_agent ''what is 2+2'' ''user'' [] []
     = Some (Inr (model_reply [text_part ''4''],
                  [user_turn ''what is 2+2'' ''user'',
                   model_turn [call_part ''add'' add_args],
                   results_turn [response_part ''add'' (JNum 4)],
                   model_turn [text_part ''4'']]),
             demo_loaded,
             demo_loading @
               [GenerateContent (llm_request [user_turn ''what is 2+2'' ''user'']
                                   [\<lparr>functionDeclarations = [add_definition]\<rparr>]),
                Question (confirm_prompt (demo_env ''add'' ''yes'') ''add'' add_args),
                CallTool 0 ''add'' add_args,
                GenerateContent (llm_request [user_turn ''what is 2+2'' ''user'',
                                              model_turn [call_part ''add'' add_args],
                                              results_turn [response_part ''add'' (JNum 4)]]
                                   [\<lparr>functionDeclarations = [add_definition]\<rparr>])])
   \<and> (\<exists>cand rest. candidates (model_reply [text_part ''4'']) = cand # rest
          \<and> content cand = model_turn [text_part ''4'']
          \<and> (\<forall>p \<in> set (parts (content cand)). p_functionCall p = Absent))"
  using processQuery_returns_text_reply [OF demo_processQuery] demo_processQuery
  by auto

end
